theory Spec2Isabelle
  imports Main "HOL-Library.Word"
begin

section \<open>The feature layer of the Vega mailbox client\<close>

text \<open>
  The development embeds \<^verbatim>\<open>feature_client.go\<close>: the per-instance reply queue, request and
  reply, the handler loop, and the pipe endpoints with their handshake. The transport
  (\<^verbatim>\<open>Client\<close>, \<^verbatim>\<open>Delivery\<close>, \<^verbatim>\<open>RandomQueue\<close>) is declared in other files of the package; the
  feature layer only calls it, so it is a parameter here: a record of state transformers
  over an arbitrary broker state. A theorem stated for a transport \<open>T\<close> holds for every such
  transport. \<^verbatim>\<open>Receive\<close> and its \<^verbatim>\<open>Receiver\<close> run a goroutine over channels and are not part
  of this sequential model; the address and deadline methods of an endpoint touch no
  state and are left out.
\<close>

subsection \<open>Messages, deliveries, errors\<close>

type_synonym byte = "8 word"

text \<open>
  \<^verbatim>\<open>Message\<close>: the three fields the feature layer reads or writes. A field left out of a Go
  composite literal is its zero value, the empty string or the empty byte slice.
\<close>

record message =
  Type :: string
  Body :: "byte list"
  ReplyTo :: string

text \<open>
  \<^verbatim>\<open>Delivery\<close>: a message with its acknowledgement capability. The capability is a closure
  in Go; here it is a token that the transport's \<open>t_Ack\<close> interprets.
\<close>

record delivery =
  Message :: message
  AckId :: nat

text \<open>
  Go errors are opaque values. \<open>EOF\<close> is \<^verbatim>\<open>io.EOF\<close>, \<open>EProtocolError\<close> the package's
  sentinel; \<open>Err\<close> stands for any other error value. A transport may return any of them.
\<close>

datatype error = EOF | EProtocolError | Err string

text \<open>A run-time panic: a nil pointer dereference, or \<^verbatim>\<open>panic(err)\<close>.\<close>

datatype panic = NilPointerDereference | PanicError error

subsection \<open>The transport, as a parameter\<close>

text \<open>
  One field per transport function the feature layer calls. \<open>t_Poll\<close> and \<open>t_LongPoll\<close>
  return the pair \<^verbatim>\<open>(*Delivery, error)\<close>; a nil delivery is \<open>None\<close>, a nil error is \<open>None\<close>.
  \<open>t_RandomQueue\<close> draws its name from the state.
\<close>

record 'b transport =
  t_Declare :: "string \<Rightarrow> 'b \<Rightarrow> error option \<times> 'b"
  t_EphemeralDeclare :: "string \<Rightarrow> 'b \<Rightarrow> error option \<times> 'b"
  t_Push :: "string \<Rightarrow> message \<Rightarrow> 'b \<Rightarrow> error option \<times> 'b"
  t_Poll :: "string \<Rightarrow> 'b \<Rightarrow> (delivery option \<times> error option) \<times> 'b"
  t_LongPoll :: "string \<Rightarrow> int \<Rightarrow> 'b \<Rightarrow> (delivery option \<times> error option) \<times> 'b"
  t_Abandon :: "string \<Rightarrow> 'b \<Rightarrow> error option \<times> 'b"
  t_Ack :: "delivery \<Rightarrow> 'b \<Rightarrow> error option \<times> 'b"
  t_RandomQueue :: "'b \<Rightarrow> string \<times> 'b"

text \<open>
  The world is the broker state together with a log of the calls made, in program order.
  The log is ghost state: no operation reads it. It is what "is called once" and
  "before" are stated on.
\<close>

datatype event =
    EvDeclare string
  | EvEphemeralDeclare string
  | EvPush string message
  | EvPoll string
  | EvLongPoll string int
  | EvAbandon string
  | EvAck delivery
  | EvRandomQueue string
  | EvHandleMessage message

record 'b world =
  broker :: 'b
  trace :: "event list"

definition Client_Declare :: "'b transport \<Rightarrow> string \<Rightarrow> 'b world \<Rightarrow> error option \<times> 'b world" where
  "Client_Declare T q w =
     (case t_Declare T q (broker w) of
        (err, b') \<Rightarrow> (err, \<lparr>broker = b', trace = trace w @ [EvDeclare q]\<rparr>))"

definition EphemeralDeclare :: "'b transport \<Rightarrow> string \<Rightarrow> 'b world \<Rightarrow> error option \<times> 'b world" where
  "EphemeralDeclare T q w =
     (case t_EphemeralDeclare T q (broker w) of
        (err, b') \<Rightarrow> (err, \<lparr>broker = b', trace = trace w @ [EvEphemeralDeclare q]\<rparr>))"

definition Push :: "'b transport \<Rightarrow> string \<Rightarrow> message \<Rightarrow> 'b world \<Rightarrow> error option \<times> 'b world" where
  "Push T q m w =
     (case t_Push T q m (broker w) of
        (err, b') \<Rightarrow> (err, \<lparr>broker = b', trace = trace w @ [EvPush q m]\<rparr>))"

definition Poll ::
  "'b transport \<Rightarrow> string \<Rightarrow> 'b world \<Rightarrow> (delivery option \<times> error option) \<times> 'b world" where
  "Poll T q w =
     (case t_Poll T q (broker w) of
        (r, b') \<Rightarrow> (r, \<lparr>broker = b', trace = trace w @ [EvPoll q]\<rparr>))"

definition LongPoll ::
  "'b transport \<Rightarrow> string \<Rightarrow> int \<Rightarrow> 'b world \<Rightarrow> (delivery option \<times> error option) \<times> 'b world" where
  "LongPoll T q d w =
     (case t_LongPoll T q d (broker w) of
        (r, b') \<Rightarrow> (r, \<lparr>broker = b', trace = trace w @ [EvLongPoll q d]\<rparr>))"

definition Abandon :: "'b transport \<Rightarrow> string \<Rightarrow> 'b world \<Rightarrow> error option \<times> 'b world" where
  "Abandon T q w =
     (case t_Abandon T q (broker w) of
        (err, b') \<Rightarrow> (err, \<lparr>broker = b', trace = trace w @ [EvAbandon q]\<rparr>))"

definition Ack :: "'b transport \<Rightarrow> delivery \<Rightarrow> 'b world \<Rightarrow> error option \<times> 'b world" where
  "Ack T d w =
     (case t_Ack T d (broker w) of
        (err, b') \<Rightarrow> (err, \<lparr>broker = b', trace = trace w @ [EvAck d]\<rparr>))"

definition RandomQueue :: "'b transport \<Rightarrow> 'b world \<Rightarrow> string \<times> 'b world" where
  "RandomQueue T w =
     (case t_RandomQueue T (broker w) of
        (r, b') \<Rightarrow> (r, \<lparr>broker = b', trace = trace w @ [EvRandomQueue r]\<rparr>))"

text \<open>\<^verbatim>\<open>1*time.Minute\<close>, a duration in nanoseconds.\<close>

definition Minute :: int where
  "Minute = 60000000000"

subsection \<open>Pipe endpoints\<close>

text \<open>
  \<^verbatim>\<open>pipeConn\<close>. The field \<^verbatim>\<open>fc\<close> points to the feature client, of which the endpoint uses
  the transport only; it is the parameter \<open>T\<close> of each operation. A nil \<^verbatim>\<open>buffer\<close> is
  \<open>None\<close>.
\<close>

record pipeConn =
  pairM :: string
  ownM :: string
  closed :: bool
  abandon :: bool
  buffer :: "byte list option"

text \<open>
  Go's \<^verbatim>\<open>copy(dst, src)\<close> overwrites the first \<open>min (len dst) (len src)\<close> elements of
  \<open>dst\<close>.
\<close>

definition copy :: "'a list \<Rightarrow> 'a list \<Rightarrow> 'a list" where
  "copy dst src =
     (let k = min (length dst) (length src) in take k src @ drop k dst)"

definition close_message :: message where
  "close_message = \<lparr>Type = ''pipe/close'', Body = [], ReplyTo = []\<rparr>"

definition data_message :: "byte list \<Rightarrow> message" where
  "data_message b = \<lparr>Type = [], Body = b, ReplyTo = []\<rparr>"

text \<open>\<^verbatim>\<open>pipeConn.Close\<close>. The result of \<^verbatim>\<open>Abandon\<close> is dropped; that of \<^verbatim>\<open>Push\<close> is returned.\<close>

definition Close ::
  "'b transport \<Rightarrow> pipeConn \<Rightarrow> 'b world \<Rightarrow> error option \<times> pipeConn \<times> 'b world" where
  "Close T p w =
     (if abandon p then (None, p, w)
      else
        let p1 = p\<lparr>abandon := True\<rparr> in
        case Abandon T (ownM p1) w of
          (_, w1) \<Rightarrow>
            (case Push T (pairM p1) close_message w1 of
               (err, w2) \<Rightarrow> (err, p1, w2)))"

text \<open>\<^verbatim>\<open>pipeConn.Write\<close>. The endpoint is not changed.\<close>

definition Write ::
  "'b transport \<Rightarrow> pipeConn \<Rightarrow> byte list \<Rightarrow> 'b world \<Rightarrow> (nat \<times> error option) \<times> 'b world" where
  "Write T p b w =
     (if closed p then ((0, Some EOF), w)
      else
        case Push T (pairM p) (data_message b) w of
          (err, w1) \<Rightarrow>
            (case err of
               Some e \<Rightarrow> ((0, Some e), w1)
             | None \<Rightarrow> ((length b, None), w1)))"

text \<open>
  \<^verbatim>\<open>pipeConn.Read\<close>, the loop of lines 281 to 314: the residual buffer is nil. The result is
  the returned pair, the destination slice as it is left, the endpoint and the world. The
  loop runs as long as the long poll returns neither a delivery nor an error, so it is a
  partial function: \<open>None\<close> is a loop that never returns.
\<close>

partial_function (option) Read_loop ::
  "'b transport \<Rightarrow> pipeConn \<Rightarrow> byte list \<Rightarrow> 'b world \<Rightarrow>
     ((panic + nat \<times> error option) \<times> byte list \<times> pipeConn \<times> 'b world) option" where
  "Read_loop T p b w =
     (case LongPoll T (ownM p) Minute w of
        ((resp, err), w1) \<Rightarrow>
          (case err of
             Some e \<Rightarrow> Some (Inr (0, Some e), b, p, w1)
           | None \<Rightarrow>
               (case resp of
                  None \<Rightarrow> Read_loop T p b w1
                | Some d \<Rightarrow>
                    (case Ack T d w1 of
                       (err2, w2) \<Rightarrow>
                         (case err2 of
                            Some e2 \<Rightarrow> Some (Inr (0, Some e2), b, p, w2)
                          | None \<Rightarrow>
                              if Type (Message d) = ''pipe/close''
                              then Some (Inr (0, Some EOF), b, p\<lparr>closed := True\<rparr>, w2)
                              else
                                let bn = length b; n = length (Body (Message d)) in
                                if bn < n
                                then Some (Inr (bn, None),
                                           copy b (take bn (Body (Message d))),
                                           p\<lparr>buffer := Some (drop bn (Body (Message d)))\<rparr>, w2)
                                else Some (Inr (n, None),
                                           copy b (Body (Message d)),
                                           p\<lparr>buffer := None\<rparr>, w2))))))"

text \<open>
  \<^verbatim>\<open>pipeConn.Read\<close>. In the branch \<^verbatim>\<open>bn > n\<close> (lines 245 to 276) the delivery returned by
  \<^verbatim>\<open>Poll\<close> is used without a nil test: when \<^verbatim>\<open>Poll\<close> returns no delivery and no error,
  \<^verbatim>\<open>resp.Ack()\<close> on line 251 goes through the nil pointer, which is a run-time panic. After
  \<^verbatim>\<open>b = b[n:]\<close> the copies write behind the first \<open>n\<close> bytes of the caller's slice.
\<close>

definition Read ::
  "'b transport \<Rightarrow> pipeConn \<Rightarrow> byte list \<Rightarrow> 'b world \<Rightarrow>
     ((panic + nat \<times> error option) \<times> byte list \<times> pipeConn \<times> 'b world) option" where
  "Read T p b w =
     (if closed p then Some (Inr (0, Some EOF), b, p, w)
      else
        case buffer p of
          Some buf \<Rightarrow>
            (let n = length buf; bn = length b in
             if bn < n
             then Some (Inr (bn, None), copy b (take bn buf), p\<lparr>buffer := Some (drop bn buf)\<rparr>, w)
             else
               let b1 = copy b buf; p1 = p\<lparr>buffer := None\<rparr> in
               if bn > n
               then
                 (case Poll T (ownM p1) w of
                    ((resp, err), w1) \<Rightarrow>
                      (case err of
                         Some e \<Rightarrow> Some (Inr (n, None), b1, p1, w1)
                       | None \<Rightarrow>
                           (case resp of
                              None \<Rightarrow> Some (Inl NilPointerDereference, b1, p1, w1)
                            | Some d \<Rightarrow>
                                (case Ack T d w1 of
                                   (err2, w2) \<Rightarrow>
                                     (case err2 of
                                        Some e2 \<Rightarrow> Some (Inr (n, None), b1, p1, w2)
                                      | None \<Rightarrow>
                                          if Type (Message d) = ''pipe/close''
                                          then Some (Inr (n, None), b1, p1\<lparr>closed := True\<rparr>, w2)
                                          else
                                            let b2 = drop n b1;
                                                bn2 = length b2;
                                                n2 = length (Body (Message d)) in
                                            if bn2 < n2
                                            then Some (Inr (n + bn2, None),
                                                       take n b1 @ copy b2 (take bn2 (Body (Message d))),
                                                       p1\<lparr>buffer := Some (drop bn2 (Body (Message d)))\<rparr>,
                                                       w2)
                                            else Some (Inr (n + n2, None),
                                                       take n b1 @ copy b2 (Body (Message d)),
                                                       p1\<lparr>buffer := None\<rparr>, w2))))))
               else Some (Inr (n, None), b1, p1, w))
        | None \<Rightarrow> Read_loop T p b w)"

subsection \<open>The feature client\<close>

text \<open>
  \<^verbatim>\<open>FeatureClient\<close>: the embedded \<^verbatim>\<open>*Client\<close> is the parameter \<open>T\<close>; the mutex orders
  concurrent callers and has no counterpart in a sequential model. \<^verbatim>\<open>NewFeatureClient\<close>,
  \<^verbatim>\<open>Dial\<close> and \<^verbatim>\<open>Clone\<close> all build the instance with an empty \<^verbatim>\<open>localQueue\<close>.
\<close>

record FeatureClient =
  localQueue :: string

definition NewFeatureClient :: FeatureClient where
  "NewFeatureClient = \<lparr>localQueue = []\<rparr>"

definition Clone :: "FeatureClient \<Rightarrow> FeatureClient" where
  "Clone fc = \<lparr>localQueue = []\<rparr>"

text \<open>\<^verbatim>\<open>FeatureClient.LocalQueue\<close>. A failed declaration is \<^verbatim>\<open>panic(err)\<close>.\<close>

definition LocalQueue ::
  "'b transport \<Rightarrow> FeatureClient \<Rightarrow> 'b world \<Rightarrow> (panic + string) \<times> FeatureClient \<times> 'b world" where
  "LocalQueue T fc w =
     (if localQueue fc \<noteq> [] then (Inr (localQueue fc), fc, w)
      else
        case RandomQueue T w of
          (r, w1) \<Rightarrow>
            (case EphemeralDeclare T r w1 of
               (err, w2) \<Rightarrow>
                 (case err of
                    Some e \<Rightarrow> (Inl (PanicError e), fc, w2)
                  | None \<Rightarrow> (Inr r, fc\<lparr>localQueue := r\<rparr>, w2))))"

definition cEphemeral :: string where
  "cEphemeral = ''#ephemeral''"

text \<open>\<^verbatim>\<open>strings.HasSuffix\<close>.\<close>

definition HasSuffix :: "string \<Rightarrow> string \<Rightarrow> bool" where
  "HasSuffix s suffix =
     (length suffix \<le> length s \<and> drop (length s - length suffix) s = suffix)"

text \<open>\<^verbatim>\<open>FeatureClient.Declare\<close>.\<close>

definition Declare :: "'b transport \<Rightarrow> string \<Rightarrow> 'b world \<Rightarrow> error option \<times> 'b world" where
  "Declare T name w =
     (if HasSuffix name cEphemeral then EphemeralDeclare T name w
      else Client_Declare T name w)"

text \<open>
  \<^verbatim>\<open>FeatureClient.HandleRequests\<close>. The handler is a function from the received message
  to the reply (a handler that returns nil, or writes to the message it is handed, is
  outside this model); its invocation is logged. The results of \<^verbatim>\<open>del.Ack()\<close> and of the
  reply \<^verbatim>\<open>Push\<close> are dropped. The loop returns on a long-poll error only.
\<close>

partial_function (option) HandleRequests ::
  "'b transport \<Rightarrow> string \<Rightarrow> (message \<Rightarrow> message) \<Rightarrow> 'b world \<Rightarrow> (error \<times> 'b world) option" where
  "HandleRequests T name h w =
     (case LongPoll T name Minute w of
        ((del, err), w1) \<Rightarrow>
          (case err of
             Some e \<Rightarrow> Some (e, w1)
           | None \<Rightarrow>
               (case del of
                  None \<Rightarrow> HandleRequests T name h w1
                | Some d \<Rightarrow>
                    (let msg = Message d;
                         ret = h msg;
                         w2 = w1\<lparr>trace := trace w1 @ [EvHandleMessage msg]\<rparr> in
                     case Ack T d w2 of
                       (_, w3) \<Rightarrow>
                         (case Push T (ReplyTo msg) ret w3 of
                            (_, w4) \<Rightarrow> HandleRequests T name h w4)))))"

text \<open>
  \<^verbatim>\<open>FeatureClient.Request\<close>: the loop of lines 122 to 133, then the function. The caller's
  message is updated in place, so the updated message is part of the result.
\<close>

partial_function (option) Request_loop ::
  "'b transport \<Rightarrow> message \<Rightarrow> 'b world \<Rightarrow> ((delivery option \<times> error option) \<times> 'b world) option" where
  "Request_loop T msg w =
     (case LongPoll T (ReplyTo msg) Minute w of
        ((resp, err), w1) \<Rightarrow>
          (case err of
             Some e \<Rightarrow> Some ((None, Some e), w1)
           | None \<Rightarrow>
               (case resp of
                  None \<Rightarrow> Request_loop T msg w1
                | Some d \<Rightarrow> Some ((Some d, None), w1))))"

definition Request ::
  "'b transport \<Rightarrow> FeatureClient \<Rightarrow> string \<Rightarrow> message \<Rightarrow> 'b world \<Rightarrow>
     ((panic + delivery option \<times> error option) \<times> message \<times> FeatureClient \<times> 'b world) option" where
  "Request T fc name msg w =
     (case LocalQueue T fc w of
        (Inl pn, fc1, w1) \<Rightarrow> Some (Inl pn, msg, fc1, w1)
      | (Inr lq, fc1, w1) \<Rightarrow>
          (let msg1 = msg\<lparr>ReplyTo := lq\<rparr> in
           case Push T name msg1 w1 of
             (err, w2) \<Rightarrow>
               (case err of
                  Some e \<Rightarrow> Some (Inr (None, Some e), msg1, fc1, w2)
                | None \<Rightarrow>
                    (case Request_loop T msg1 w2 of
                       None \<Rightarrow> None
                     | Some (r, w3) \<Rightarrow> Some (Inr r, msg1, fc1, w3)))))"

subsection \<open>The pipe handshake\<close>

definition setup_message :: "string \<Rightarrow> message" where
  "setup_message own = \<lparr>Type = ''pipe/setup'', Body = [], ReplyTo = own\<rparr>"

definition initconnect_message :: "string \<Rightarrow> message" where
  "initconnect_message own = \<lparr>Type = ''pipe/initconnect'', Body = [], ReplyTo = own\<rparr>"

text \<open>\<^verbatim>\<open>&pipeConn{fc: fc, pairM: ..., ownM: ...}\<close>: the other fields are zero.\<close>

definition new_pipeConn :: "string \<Rightarrow> string \<Rightarrow> pipeConn" where
  "new_pipeConn pair own =
     \<lparr>pairM = pair, ownM = own, closed = False, abandon = False, buffer = None\<rparr>"

text \<open>
  \<^verbatim>\<open>FeatureClient.ListenPipe\<close>: the loop of lines 353 to 390, then the function. The results
  of \<^verbatim>\<open>EphemeralDeclare\<close> (line 373) and of the \<^verbatim>\<open>Abandon\<close> that cleans up are dropped.
\<close>

partial_function (option) ListenPipe_loop ::
  "'b transport \<Rightarrow> string \<Rightarrow> 'b world \<Rightarrow> ((error + pipeConn) \<times> 'b world) option" where
  "ListenPipe_loop T q w =
     (case LongPoll T q Minute w of
        ((resp, err), w1) \<Rightarrow>
          (case err of
             Some e \<Rightarrow> Some (Inl e, w1)
           | None \<Rightarrow>
               (case resp of
                  None \<Rightarrow> ListenPipe_loop T q w1
                | Some d \<Rightarrow>
                    (case Ack T d w1 of
                       (err2, w2) \<Rightarrow>
                         (case err2 of
                            Some e2 \<Rightarrow> Some (Inl e2, w2)
                          | None \<Rightarrow>
                              if Type (Message d) \<noteq> ''pipe/initconnect''
                              then Some (Inl EProtocolError, w2)
                              else
                                (case RandomQueue T w2 of
                                   (own, w3) \<Rightarrow>
                                     (case EphemeralDeclare T own w3 of
                                        (_, w4) \<Rightarrow>
                                          (case Push T (ReplyTo (Message d)) (setup_message own) w4 of
                                             (err3, w5) \<Rightarrow>
                                               (case err3 of
                                                  Some e3 \<Rightarrow>
                                                    (case Abandon T own w5 of
                                                       (_, w6) \<Rightarrow> Some (Inl e3, w6))
                                                | None \<Rightarrow>
                                                    Some (Inr (new_pipeConn (ReplyTo (Message d)) own),
                                                          w5))))))))))"

definition ListenPipe ::
  "'b transport \<Rightarrow> string \<Rightarrow> 'b world \<Rightarrow> ((error + pipeConn) \<times> 'b world) option" where
  "ListenPipe T name w =
     (let q = ''pipe:'' @ name in
      case Declare T q w of
        (err, w1) \<Rightarrow>
          (case err of
             Some e \<Rightarrow> Some (Inl e, w1)
           | None \<Rightarrow> ListenPipe_loop T q w1))"

text \<open>
  \<^verbatim>\<open>FeatureClient.ConnectPipe\<close>: the loop of lines 410 to 434, then the function. The result
  of \<^verbatim>\<open>EphemeralDeclare\<close> (line 395) is dropped.
\<close>

partial_function (option) ConnectPipe_loop ::
  "'b transport \<Rightarrow> string \<Rightarrow> 'b world \<Rightarrow> ((error + pipeConn) \<times> 'b world) option" where
  "ConnectPipe_loop T own w =
     (case LongPoll T own Minute w of
        ((resp, err), w1) \<Rightarrow>
          (case err of
             Some e \<Rightarrow> Some (Inl e, w1)
           | None \<Rightarrow>
               (case resp of
                  None \<Rightarrow> ConnectPipe_loop T own w1
                | Some d \<Rightarrow>
                    (case Ack T d w1 of
                       (err2, w2) \<Rightarrow>
                         (case err2 of
                            Some e2 \<Rightarrow> Some (Inl e2, w2)
                          | None \<Rightarrow>
                              if Type (Message d) \<noteq> ''pipe/setup''
                              then
                                (case Abandon T own w2 of
                                   (_, w3) \<Rightarrow> Some (Inl EProtocolError, w3))
                              else Some (Inr (new_pipeConn (ReplyTo (Message d)) own), w2))))))"

definition ConnectPipe ::
  "'b transport \<Rightarrow> string \<Rightarrow> 'b world \<Rightarrow> ((error + pipeConn) \<times> 'b world) option" where
  "ConnectPipe T name w =
     (case RandomQueue T w of
        (own, w1) \<Rightarrow>
          (case EphemeralDeclare T own w1 of
             (_, w2) \<Rightarrow>
               (let q = ''pipe:'' @ name in
                case Push T q (initconnect_message own) w2 of
                  (err, w3) \<Rightarrow>
                    (case err of
                       Some e \<Rightarrow>
                         (case Abandon T own w3 of
                            (_, w4) \<Rightarrow> Some (Inl e, w4))
                     | None \<Rightarrow> ConnectPipe_loop T own w3))))"

subsection \<open>Runs of calls\<close>

text \<open>\<open>n\<close> calls of \<^verbatim>\<open>LocalQueue\<close> on one instance, one after the other, with their results.\<close>

fun LocalQueue_calls ::
  "'b transport \<Rightarrow> nat \<Rightarrow> FeatureClient \<Rightarrow> 'b world \<Rightarrow>
     (panic + string) list \<times> FeatureClient \<times> 'b world" where
  "LocalQueue_calls T 0 fc w = ([], fc, w)"
| "LocalQueue_calls T (Suc n) fc w =
     (case LocalQueue T fc w of
        (r, fc1, w1) \<Rightarrow>
          (case LocalQueue_calls T n fc1 w1 of
             (rs, fc2, w2) \<Rightarrow> (r # rs, fc2, w2)))"

text \<open>
  The world after \<open>n\<close> long polls of a queue that each return neither a delivery nor an
  error; \<open>None\<close> when one of them returns something.
\<close>

fun nil_LongPolls :: "'b transport \<Rightarrow> string \<Rightarrow> nat \<Rightarrow> 'b world \<Rightarrow> 'b world option" where
  "nil_LongPolls T q 0 w = Some w"
| "nil_LongPolls T q (Suc n) w =
     (case LongPoll T q Minute w of
        ((None, None), w1) \<Rightarrow> nil_LongPolls T q n w1
      | _ \<Rightarrow> None)"

subsection \<open>Reading the log\<close>

fun is_close_push :: "string \<Rightarrow> event \<Rightarrow> bool" where
  "is_close_push q (EvPush q' m) = (q' = q \<and> Type m = ''pipe/close'')"
| "is_close_push q _ = False"

fun is_Abandon :: "string \<Rightarrow> event \<Rightarrow> bool" where
  "is_Abandon q (EvAbandon q') = (q' = q)"
| "is_Abandon q _ = False"

fun is_EphemeralDeclare :: "string \<Rightarrow> event \<Rightarrow> bool" where
  "is_EphemeralDeclare q (EvEphemeralDeclare q') = (q' = q)"
| "is_EphemeralDeclare q _ = False"

subsection \<open>A scripted transport\<close>

text \<open>
  A transport whose replies are read off lists, one list per kind of call; an exhausted
  list answers "no error", "no delivery" or a fixed name. It is the concrete transport at
  which the general theorems are instantiated.
\<close>

record script =
  declares :: "error option list"
  pushes :: "error option list"
  polls :: "(delivery option \<times> error option) list"
  abandons :: "error option list"
  acks :: "error option list"
  names :: "string list"

definition next_reply :: "'a \<Rightarrow> 'a list \<Rightarrow> 'a \<times> 'a list" where
  "next_reply dflt xs = (case xs of [] \<Rightarrow> (dflt, []) | x # rest \<Rightarrow> (x, rest))"

definition ScriptT :: "script transport" where
  "ScriptT =
     \<lparr>t_Declare =
        (\<lambda>q s. case next_reply None (declares s) of (r, rest) \<Rightarrow> (r, s\<lparr>declares := rest\<rparr>)),
      t_EphemeralDeclare =
        (\<lambda>q s. case next_reply None (declares s) of (r, rest) \<Rightarrow> (r, s\<lparr>declares := rest\<rparr>)),
      t_Push =
        (\<lambda>q m s. case next_reply None (pushes s) of (r, rest) \<Rightarrow> (r, s\<lparr>pushes := rest\<rparr>)),
      t_Poll =
        (\<lambda>q s. case next_reply (None, None) (polls s) of (r, rest) \<Rightarrow> (r, s\<lparr>polls := rest\<rparr>)),
      t_LongPoll =
        (\<lambda>q d s. case next_reply (None, None) (polls s) of (r, rest) \<Rightarrow> (r, s\<lparr>polls := rest\<rparr>)),
      t_Abandon =
        (\<lambda>q s. case next_reply None (abandons s) of (r, rest) \<Rightarrow> (r, s\<lparr>abandons := rest\<rparr>)),
      t_Ack =
        (\<lambda>d s. case next_reply None (acks s) of (r, rest) \<Rightarrow> (r, s\<lparr>acks := rest\<rparr>)),
      t_RandomQueue =
        (\<lambda>s. case next_reply ''q#ephemeral'' (names s) of
                (r, rest) \<Rightarrow> (r, s\<lparr>names := rest\<rparr>))\<rparr>"

definition quiet :: script where
  "quiet = \<lparr>declares = [], pushes = [], polls = [], abandons = [], acks = [], names = []\<rparr>"

definition start :: "script \<Rightarrow> script world" where
  "start s = \<lparr>broker = s, trace = []\<rparr>"

definition ep :: "byte list option \<Rightarrow> pipeConn" where
  "ep buf = \<lparr>pairM = ''peer'', ownM = ''own'', closed = False, abandon = False, buffer = buf\<rparr>"

definition deliver :: "message \<Rightarrow> delivery option \<times> error option" where
  "deliver m = (Some \<lparr>Message = m, AckId = 0\<rparr>, None)"

text \<open>The frame \<^verbatim>\<open>"abcdef"\<close>, as delivered.\<close>

definition abcdef :: delivery where
  "abcdef = \<lparr>Message = data_message [97, 98, 99, 100, 101, 102], AckId = 0\<rparr>"

text \<open>A request with a reply address of the caller's, and a reply to it.\<close>

definition ping :: message where
  "ping = \<lparr>Type = [], Body = [112, 105, 110, 103], ReplyTo = ''elsewhere''\<rparr>"

definition pong :: delivery where
  "pong = \<lparr>Message = \<lparr>Type = [], Body = [112, 111, 110, 103], ReplyTo = []\<rparr>, AckId = 7\<rparr>"

definition ping_delivery :: delivery where
  "ping_delivery = \<lparr>Message = ping, AckId = 3\<rparr>"

text \<open>A transport error, and the two handshake messages as delivered.\<close>

definition down :: error where
  "down = Err ''down''"

definition initconnect_delivery :: delivery where
  "initconnect_delivery = \<lparr>Message = initconnect_message ''theirs'', AckId = 0\<rparr>"

definition setup_delivery :: delivery where
  "setup_delivery = \<lparr>Message = setup_message ''theirs'', AckId = 0\<rparr>"

subsection \<open>Two endpoints over a broker\<close>

text \<open>
  Modelled from the spec: the broker behind the transport, which is not part of the feature
  layer. A mailbox is "a named, broker-hosted, ordered FIFO of messages"; "within a single
  mailbox, delivery order equals push order"; a poll is non-blocking and a long poll returns
  nil when its window expires. This broker never fails: a push appends to the mailbox, a
  poll or long poll takes its first message if there is one, \<^verbatim>\<open>Abandon\<close> empties the mailbox,
  and \<^verbatim>\<open>RandomQueue\<close> hands out the names of a supply.
\<close>

record mailboxes =
  boxes :: "string \<Rightarrow> message list"
  unused_names :: "string list"

definition mb_Push :: "string \<Rightarrow> message \<Rightarrow> mailboxes \<Rightarrow> error option \<times> mailboxes" where
  "mb_Push q m s = (None, s\<lparr>boxes := (boxes s)(q := boxes s q @ [m])\<rparr>)"

definition mb_Poll :: "string \<Rightarrow> mailboxes \<Rightarrow> (delivery option \<times> error option) \<times> mailboxes" where
  "mb_Poll q s =
     (case boxes s q of
        [] \<Rightarrow> ((None, None), s)
      | m # ms \<Rightarrow> ((Some \<lparr>Message = m, AckId = 0\<rparr>, None), s\<lparr>boxes := (boxes s)(q := ms)\<rparr>))"

definition mb_Abandon :: "string \<Rightarrow> mailboxes \<Rightarrow> error option \<times> mailboxes" where
  "mb_Abandon q s = (None, s\<lparr>boxes := (boxes s)(q := [])\<rparr>)"

definition mb_RandomQueue :: "mailboxes \<Rightarrow> string \<times> mailboxes" where
  "mb_RandomQueue s =
     (case unused_names s of
        [] \<Rightarrow> (cEphemeral, s)
      | r # rs \<Rightarrow> (r, s\<lparr>unused_names := rs\<rparr>))"

definition MailboxT :: "mailboxes transport" where
  "MailboxT =
     \<lparr>t_Declare = (\<lambda>q s. (None, s)),
      t_EphemeralDeclare = (\<lambda>q s. (None, s)),
      t_Push = mb_Push,
      t_Poll = mb_Poll,
      t_LongPoll = (\<lambda>q d. mb_Poll q),
      t_Abandon = mb_Abandon,
      t_Ack = (\<lambda>d s. (None, s)),
      t_RandomQueue = mb_RandomQueue\<rparr>"

text \<open>
  Two connected endpoints over the broker: \<open>A\<close> writes and closes, \<open>B\<close> reads. \<open>sent\<close> collects
  the bytes \<^verbatim>\<open>Write\<close> accepted on \<open>A\<close> before \<open>A\<close> was closed, \<open>got\<close> the slices \<open>b[:n]\<close> that the
  calls of \<^verbatim>\<open>Read\<close> on \<open>B\<close> returned; both are ghost state.
\<close>

record link =
  A :: pipeConn
  B :: pipeConn
  net :: "mailboxes world"
  sent :: "byte list"
  got :: "byte list"

datatype pipe_op = WriteA "byte list" | CloseA | ReadB "byte list"

text \<open>
  One call. A \<^verbatim>\<open>Read\<close> that panics or never returns ends the run: there is no state after
  it.
\<close>

fun step :: "pipe_op \<Rightarrow> link \<Rightarrow> link option" where
  "step (WriteA bs) s =
     (case Write MailboxT (A s) bs (net s) of
        ((n, err), w1) \<Rightarrow>
          Some (s\<lparr>net := w1, sent := sent s @ (if abandon (A s) then [] else take n bs)\<rparr>))"
| "step CloseA s =
     (case Close MailboxT (A s) (net s) of
        (err, a1, w1) \<Rightarrow> Some (s\<lparr>A := a1, net := w1\<rparr>))"
| "step (ReadB b) s =
     (case Read MailboxT (B s) b (net s) of
        None \<Rightarrow> None
      | Some (Inl pn, b1, p1, w1) \<Rightarrow> None
      | Some (Inr (n, err), b1, p1, w1) \<Rightarrow>
          Some (s\<lparr>B := p1, net := w1, got := got s @ take n b1\<rparr>))"

fun run :: "pipe_op list \<Rightarrow> link \<Rightarrow> link option" where
  "run [] s = Some s"
| "run (x # xs) s = (case step x s of None \<Rightarrow> None | Some s1 \<Rightarrow> run xs s1)"

text \<open>The link as the handshake leaves it: two new endpoints, each other's peer.\<close>

definition connected :: "string \<Rightarrow> string \<Rightarrow> link" where
  "connected qa qb =
     \<lparr>A = new_pipeConn qb qa, B = new_pipeConn qa qb,
      net = \<lparr>broker = \<lparr>boxes = (\<lambda>q. []), unused_names = []\<rparr>, trace = []\<rparr>,
      sent = [], got = []\<rparr>"

text \<open>
  The bytes on their way to the reader: the residual buffer of \<open>B\<close>, then the bodies of the
  frames in its mailbox that are ahead of a \<^verbatim>\<open>pipe/close\<close>; nothing once \<open>B\<close> has seen the end
  of the stream.
\<close>

definition unread :: "link \<Rightarrow> byte list" where
  "unread s =
     (if closed (B s) then []
      else
        (case buffer (B s) of None \<Rightarrow> [] | Some r \<Rightarrow> r) @
        concat (map Body (takeWhile (\<lambda>m. Type m \<noteq> ''pipe/close'')
                            (boxes (broker (net s)) (ownM (B s))))))"

text \<open>
  \<open>W\<^sub>1 @ W\<^sub>2 @ \<dots>\<close>: the bytes of the writes of a schedule that come before its first
  \<^verbatim>\<open>Close\<close>.
\<close>

fun payload :: "pipe_op \<Rightarrow> byte list" where
  "payload (WriteA bs) = bs"
| "payload CloseA = []"
| "payload (ReadB b) = []"

definition written :: "pipe_op list \<Rightarrow> byte list" where
  "written ops = concat (map payload (takeWhile (\<lambda>x. x \<noteq> CloseA) ops))"

text \<open>
  What the run keeps true: the endpoints are each other's peers with different mailboxes, the
  writer has seen no close, a \<^verbatim>\<open>pipe/close\<close> is in the reader's mailbox or has been read
  exactly when the writer is closed, and the bytes returned so far followed by the bytes on
  their way are the bytes sent.
\<close>

definition conserving :: "link \<Rightarrow> bool" where
  "conserving s \<longleftrightarrow>
     pairM (A s) = ownM (B s) \<and> ownM (A s) \<noteq> ownM (B s) \<and> \<not> closed (A s) \<and>
     (\<not> abandon (A s) \<longrightarrow>
        \<not> closed (B s) \<and>
        (\<forall>m \<in> set (boxes (broker (net s)) (ownM (B s))). Type m \<noteq> ''pipe/close'')) \<and>
     (abandon (A s) \<longrightarrow>
        closed (B s) \<or>
        (\<exists>m \<in> set (boxes (broker (net s)) (ownM (B s))). Type m = ''pipe/close'')) \<and>
     got s @ unread s = sent s"

text \<open>
  The spec's fourth scenario up to the second read, and a whole session: two writes, a
  close, and reads into four bytes that end with the end of the stream.
\<close>

definition scenario4 :: "pipe_op list" where
  "scenario4 = [WriteA [97, 98, 99, 100, 101, 102], ReadB [0, 0, 0, 0]]"

definition session :: "pipe_op list" where
  "session =
     [WriteA [97, 98, 99, 100, 101, 102], ReadB [0, 0, 0, 0], WriteA [103, 104],
      ReadB [0, 0, 0, 0], CloseA, ReadB [0, 0, 0, 0]]"

section \<open>Properties\<close>

lemmas call_defs = Client_Declare_def EphemeralDeclare_def Push_def Poll_def LongPoll_def
  Abandon_def Ack_def RandomQueue_def

lemmas script_defs = ScriptT_def next_reply_def quiet_def start_def ep_def deliver_def

lemmas eval_defs = call_defs script_defs LocalQueue_def NewFeatureClient_def Declare_def
  HasSuffix_def cEphemeral_def abcdef_def initconnect_delivery_def setup_delivery_def

subsection \<open>One step of each loop\<close>

lemma length_copy [simp]: "length (copy dst src) = length dst"
  by (simp add: copy_def Let_def)

lemma Read_loop_nil:
  "LongPoll T (ownM p) Minute w = ((None, None), w1) \<Longrightarrow>
     Read_loop T p b w = Read_loop T p b w1"
  by (subst Read_loop.simps) simp

lemma Read_loop_error:
  "LongPoll T (ownM p) Minute w = ((resp, Some e), w1) \<Longrightarrow>
     Read_loop T p b w = Some (Inr (0, Some e), b, p, w1)"
  by (subst Read_loop.simps) simp

lemma Read_loop_Ack_error:
  "LongPoll T (ownM p) Minute w = ((Some d, None), w1) \<Longrightarrow> Ack T d w1 = (Some e, w2) \<Longrightarrow>
     Read_loop T p b w = Some (Inr (0, Some e), b, p, w2)"
  by (subst Read_loop.simps) simp

lemma Read_loop_close:
  "LongPoll T (ownM p) Minute w = ((Some d, None), w1) \<Longrightarrow> Ack T d w1 = (None, w2) \<Longrightarrow>
   Type (Message d) = ''pipe/close'' \<Longrightarrow>
     Read_loop T p b w = Some (Inr (0, Some EOF), b, p\<lparr>closed := True\<rparr>, w2)"
  by (subst Read_loop.simps) simp

lemma Read_loop_data:
  "LongPoll T (ownM p) Minute w = ((Some d, None), w1) \<Longrightarrow> Ack T d w1 = (None, w2) \<Longrightarrow>
   Type (Message d) \<noteq> ''pipe/close'' \<Longrightarrow>
     Read_loop T p b w =
       (if length b < length (Body (Message d))
        then Some (Inr (length b, None), copy b (take (length b) (Body (Message d))),
                   p\<lparr>buffer := Some (drop (length b) (Body (Message d)))\<rparr>, w2)
        else Some (Inr (length (Body (Message d)), None), copy b (Body (Message d)),
                   p\<lparr>buffer := None\<rparr>, w2))"
  by (subst Read_loop.simps) (simp add: Let_def)

subsection \<open>Closing an endpoint\<close>

lemma Close_abandoned: "abandon p \<Longrightarrow> Close T p w = (None, p, w)"
  by (simp add: Close_def)

lemma Close_fresh:
  "\<not> abandon p \<Longrightarrow> Close T p w = (r, p1, w1) \<Longrightarrow>
     p1 = p\<lparr>abandon := True\<rparr> \<and>
     trace w1 = trace w @ [EvAbandon (ownM p), EvPush (pairM p) close_message]"
  by (auto simp: Close_def Abandon_def Push_def split: prod.splits)

text \<open>
  C8. Two calls of \<^verbatim>\<open>Close\<close> in a row: the second returns nil and changes neither the
  endpoint nor the world, and the calls the two make together hold at most one push of a
  \<^verbatim>\<open>pipe/close\<close> message to \<^verbatim>\<open>pairM\<close> and at most one \<^verbatim>\<open>Abandon\<close> of \<^verbatim>\<open>ownM\<close>.
\<close>

theorem Close_twice:
  "case Close T p w of
     (r1, p1, w1) \<Rightarrow>
       (case Close T p1 w1 of
          (r2, p2, w2) \<Rightarrow>
            r2 = None \<and> p2 = p1 \<and> w2 = w1 \<and>
            (\<exists>evs. trace w2 = trace w @ evs \<and>
               length (filter (is_close_push (pairM p)) evs) \<le> 1 \<and>
               length (filter (is_Abandon (ownM p)) evs) \<le> 1))"
proof (cases "abandon p")
  case True
  then show ?thesis by (simp add: Close_abandoned)
next
  case False
  obtain r1 p1 w1 where c1: "Close T p w = (r1, p1, w1)"
    by (cases "Close T p w") auto
  from Close_fresh [OF False c1] have p1: "p1 = p\<lparr>abandon := True\<rparr>"
    and tr: "trace w1 = trace w @ [EvAbandon (ownM p), EvPush (pairM p) close_message]"
    by simp_all
  from p1 have "Close T p1 w1 = (None, p1, w1)" by (simp add: Close_abandoned)
  with c1 tr show ?thesis by (simp add: close_message_def)
qed

theorem Close_twice_witness:
  "case Close ScriptT (ep None) (start (quiet\<lparr>pushes := [Some (Err ''down'')]\<rparr>)) of
     (r1, p1, w1) \<Rightarrow>
       r1 = Some (Err ''down'') \<and>
       Close ScriptT p1 w1 = (None, p1, w1) \<and>
       trace w1 = [EvAbandon ''own'', EvPush ''peer'' close_message]"
  using Close_twice [where T = ScriptT and p = "ep None"
      and w = "start (quiet\<lparr>pushes := [Some (Err ''down'')]\<rparr>)"]
  by (simp add: Close_def call_defs script_defs split: prod.splits)

text \<open>
  C10. A local \<^verbatim>\<open>Close\<close> leaves the endpoint as it was except for the flag \<^verbatim>\<open>abandon\<close>,
  which is set: \<^verbatim>\<open>closed\<close> and \<^verbatim>\<open>buffer\<close> are unchanged. So when \<^verbatim>\<open>closed\<close> was false, a
  \<^verbatim>\<open>Write\<close> after the \<^verbatim>\<open>Close\<close> pushes the data frame to \<^verbatim>\<open>pairM\<close>, and returns \<open>len(b)\<close>
  and no error when the push succeeds.
\<close>

theorem Close_then_Write:
  assumes "Close T p w = (r, p1, w1)"
  shows "p1 = p\<lparr>abandon := True\<rparr> \<and>
         (\<not> closed p \<longrightarrow>
            (\<forall>b b2. t_Push T (pairM p) (data_message b) (broker w1) = (None, b2) \<longrightarrow>
               Write T p1 b w1 =
                 ((length b, None),
                  \<lparr>broker = b2, trace = trace w1 @ [EvPush (pairM p) (data_message b)]\<rparr>)))"
proof -
  have p1: "p1 = p\<lparr>abandon := True\<rparr>"
    using assms by (cases "abandon p") (auto simp: Close_def split: prod.splits)
  then show ?thesis by (simp add: Write_def Push_def)
qed

theorem Close_then_Write_witness:
  "Close ScriptT (ep (Some [7])) (start quiet) =
     (None, (ep (Some [7]))\<lparr>abandon := True\<rparr>,
      \<lparr>broker = quiet, trace = [EvAbandon ''own'', EvPush ''peer'' close_message]\<rparr>) \<and>
   Write ScriptT ((ep (Some [7]))\<lparr>abandon := True\<rparr>) [1, 2, 3]
      \<lparr>broker = quiet, trace = [EvAbandon ''own'', EvPush ''peer'' close_message]\<rparr> =
     ((3, None),
      \<lparr>broker = quiet,
       trace = [EvAbandon ''own'', EvPush ''peer'' close_message,
                EvPush ''peer'' (data_message [1, 2, 3])]\<rparr>)"
proof -
  have c: "Close ScriptT (ep (Some [7])) (start quiet) =
     (None, (ep (Some [7]))\<lparr>abandon := True\<rparr>,
      \<lparr>broker = quiet, trace = [EvAbandon ''own'', EvPush ''peer'' close_message]\<rparr>)"
    by (simp add: Close_def call_defs script_defs)
  have "\<not> closed (ep (Some [7]))" by (simp add: ep_def)
  moreover have "t_Push ScriptT (pairM (ep (Some [7]))) (data_message [1, 2, 3]) quiet = (None, quiet)"
    by (simp add: script_defs)
  ultimately show ?thesis
    using Close_then_Write [OF c] c by (simp add: ep_def)
qed

subsection \<open>Reading from an endpoint\<close>

lemma Read_loop_le:
  assumes "Read_loop T p b w = Some y"
  shows "\<forall>n err. fst y = Inr (n, err) \<longrightarrow> n \<le> length b"
proof (rule Read_loop.raw_induct
    [where P = "\<lambda>T p b w y. \<forall>n err. fst y = Inr (n, err) \<longrightarrow> n \<le> length b", OF _ assms],
    goal_cases)
  case (1 f T p b w y)
  then show ?case
    by (auto split: prod.splits option.splits if_splits simp: Let_def)
qed

text \<open>
  C9. Whenever \<^verbatim>\<open>Read(b)\<close> returns a count \<open>n\<close>, with or without an error, \<open>n \<le> len(b)\<close>:
  in the short, the exact and the topped-up case of a residual buffer, and in the
  long-poll case of an empty one.
\<close>

theorem Read_at_most_len:
  assumes "Read T p b w = Some (Inr (n, err), b', p', w')"
  shows "n \<le> length b"
proof (cases "\<not> closed p \<and> buffer p = None")
  case True
  with assms have "Read_loop T p b w = Some (Inr (n, err), b', p', w')"
    by (simp add: Read_def)
  from Read_loop_le [OF this] show ?thesis by simp
next
  case False
  with assms show ?thesis
    by (auto simp: Read_def Let_def split: if_splits option.splits prod.splits)
qed

theorem Read_at_most_len_witness:
  "Read ScriptT (ep (Some [101, 102])) [0, 0, 0, 0]
      (start (quiet\<lparr>polls := [deliver (data_message [103, 104, 105])]\<rparr>)) =
     Some (Inr (4, None), [101, 102, 103, 104], ep (Some [105]),
           \<lparr>broker = quiet,
            trace = [EvPoll ''own'', EvAck \<lparr>Message = data_message [103, 104, 105], AckId = 0\<rparr>]\<rparr>) \<and>
   (4::nat) \<le> length [0::byte, 0, 0, 0]"
proof -
  have r: "Read ScriptT (ep (Some [101, 102])) [0, 0, 0, 0]
      (start (quiet\<lparr>polls := [deliver (data_message [103, 104, 105])]\<rparr>)) =
     Some (Inr (4, None), [101, 102, 103, 104], ep (Some [105]),
           \<lparr>broker = quiet,
            trace = [EvPoll ''own'', EvAck \<lparr>Message = data_message [103, 104, 105], AckId = 0\<rparr>]\<rparr>)"
    by (simp add: Read_def call_defs script_defs copy_def data_message_def)
  from Read_at_most_len [OF r] r show ?thesis by simp
qed

text \<open>
  C1, at the input of the spec's fourth scenario. The frame \<^verbatim>\<open>"abcdef"\<close> is read into a
  slice of four bytes, which leaves \<^verbatim>\<open>"ef"\<close> as residual. The next \<^verbatim>\<open>Read\<close> into four bytes
  copies \<^verbatim>\<open>"ef"\<close>, polls, gets no delivery and no error, and panics on the nil delivery
  instead of returning 2.
\<close>

theorem Read_poll_nil_panics:
  "Read ScriptT (ep None) [0, 0, 0, 0] (start (quiet\<lparr>polls := [(Some abcdef, None)]\<rparr>)) =
     Some (Inr (4, None), [97, 98, 99, 100], ep (Some [101, 102]),
           \<lparr>broker = quiet, trace = [EvLongPoll ''own'' Minute, EvAck abcdef]\<rparr>) \<and>
   Read ScriptT (ep (Some [101, 102])) [0, 0, 0, 0]
      \<lparr>broker = quiet, trace = [EvLongPoll ''own'' Minute, EvAck abcdef]\<rparr> =
     Some (Inl NilPointerDereference, [101, 102, 0, 0], ep None,
           \<lparr>broker = quiet, trace = [EvLongPoll ''own'' Minute, EvAck abcdef, EvPoll ''own'']\<rparr>)"
proof -
  have "Read ScriptT (ep None) [0, 0, 0, 0] (start (quiet\<lparr>polls := [(Some abcdef, None)]\<rparr>)) =
     Some (Inr (4, None), [97, 98, 99, 100], ep (Some [101, 102]),
           \<lparr>broker = quiet, trace = [EvLongPoll ''own'' Minute, EvAck abcdef]\<rparr>)"
    apply (simp add: Read_def ep_def)
    apply (subst Read_loop.simps)
    apply (simp add: call_defs script_defs copy_def data_message_def abcdef_def)
    done
  moreover have "Read ScriptT (ep (Some [101, 102])) [0, 0, 0, 0]
      \<lparr>broker = quiet, trace = [EvLongPoll ''own'' Minute, EvAck abcdef]\<rparr> =
     Some (Inl NilPointerDereference, [101, 102, 0, 0], ep None,
           \<lparr>broker = quiet, trace = [EvLongPoll ''own'' Minute, EvAck abcdef, EvPoll ''own'']\<rparr>)"
    by (simp add: Read_def call_defs script_defs copy_def)
  ultimately show ?thesis by simp
qed

text \<open>
  C2, as amended. A \<^verbatim>\<open>Read\<close> with a residual buffer shorter than the destination polls once;
  when that poll delivers a \<^verbatim>\<open>pipe/close\<close> message and its acknowledgement returns no
  error, the \<^verbatim>\<open>Read\<close> returns the length of the residual buffer and no error, and every
  later \<^verbatim>\<open>Read\<close> on the endpoint returns zero bytes and end-of-stream, without a call to
  the transport.
\<close>

theorem Read_close_during_topup:
  assumes "\<not> closed p" and "buffer p = Some buf" and "length buf < length b"
    and "Poll T (ownM p) w = ((Some d, None), w1)"
    and "Type (Message d) = ''pipe/close''"
    and "Ack T d w1 = (None, w2)"
  shows "Read T p b w =
           Some (Inr (length buf, None), copy b buf, p\<lparr>buffer := None, closed := True\<rparr>, w2) \<and>
         (\<forall>b' w'. Read T (p\<lparr>buffer := None, closed := True\<rparr>) b' w' =
            Some (Inr (0, Some EOF), b', p\<lparr>buffer := None, closed := True\<rparr>, w'))"
  using assms by (simp add: Read_def Let_def)

theorem Read_close_during_topup_witness:
  "Read ScriptT (ep (Some [101, 102])) [0, 0, 0, 0]
      (start (quiet\<lparr>polls := [deliver close_message]\<rparr>)) =
     Some (Inr (2, None), [101, 102, 0, 0], (ep None)\<lparr>closed := True\<rparr>,
           \<lparr>broker = quiet,
            trace = [EvPoll ''own'', EvAck \<lparr>Message = close_message, AckId = 0\<rparr>]\<rparr>) \<and>
   Read ScriptT ((ep None)\<lparr>closed := True\<rparr>) [0, 0, 0, 0]
      \<lparr>broker = quiet, trace = [EvPoll ''own'', EvAck \<lparr>Message = close_message, AckId = 0\<rparr>]\<rparr> =
     Some (Inr (0, Some EOF), [0, 0, 0, 0], (ep None)\<lparr>closed := True\<rparr>,
           \<lparr>broker = quiet,
            trace = [EvPoll ''own'', EvAck \<lparr>Message = close_message, AckId = 0\<rparr>]\<rparr>)"
proof -
  have 1: "\<not> closed (ep (Some [101, 102]))"
    and 2: "buffer (ep (Some [101, 102])) = Some [101, 102]"
    and 3: "length [101::byte, 102] < length [0::byte, 0, 0, 0]"
    by (simp_all add: ep_def)
  have 4: "Poll ScriptT (ownM (ep (Some [101, 102]))) (start (quiet\<lparr>polls := [deliver close_message]\<rparr>)) =
      ((Some \<lparr>Message = close_message, AckId = 0\<rparr>, None),
       \<lparr>broker = quiet, trace = [EvPoll ''own'']\<rparr>)"
    by (simp add: call_defs script_defs)
  have 5: "Type (Message \<lparr>Message = close_message, AckId = 0\<rparr>) = ''pipe/close''"
    by (simp add: close_message_def)
  have 6: "Ack ScriptT \<lparr>Message = close_message, AckId = 0\<rparr>
        \<lparr>broker = quiet, trace = [EvPoll ''own'']\<rparr> =
      (None, \<lparr>broker = quiet,
              trace = [EvPoll ''own'', EvAck \<lparr>Message = close_message, AckId = 0\<rparr>]\<rparr>)"
    by (simp add: call_defs script_defs)
  from Read_close_during_topup [OF 1 2 3 4 5 6] show ?thesis
    by (simp add: copy_def ep_def)
qed

text \<open>
  C2 as stated fails when the acknowledgement of the \<^verbatim>\<open>pipe/close\<close> delivery returns an
  error (lines 251 to 254): the first \<^verbatim>\<open>Read\<close> returns the two residual bytes and no
  error, \<^verbatim>\<open>closed\<close> stays false, and the next \<^verbatim>\<open>Read\<close> long-polls and returns the byte of
  the next frame instead of end-of-stream.
\<close>

theorem Read_close_unacked_counterexample:
  "Read ScriptT (ep (Some [101, 102])) [0, 0, 0, 0]
      (start (quiet\<lparr>polls := [deliver close_message, deliver (data_message [103])],
                     acks := [Some (Err ''ack'')]\<rparr>)) =
     Some (Inr (2, None), [101, 102, 0, 0], ep None,
           \<lparr>broker = quiet\<lparr>polls := [deliver (data_message [103])]\<rparr>,
            trace = [EvPoll ''own'', EvAck \<lparr>Message = close_message, AckId = 0\<rparr>]\<rparr>) \<and>
   Read ScriptT (ep None) [0, 0, 0, 0]
      \<lparr>broker = quiet\<lparr>polls := [deliver (data_message [103])]\<rparr>,
       trace = [EvPoll ''own'', EvAck \<lparr>Message = close_message, AckId = 0\<rparr>]\<rparr> =
     Some (Inr (1, None), [103, 0, 0, 0], ep None,
           \<lparr>broker = quiet,
            trace = [EvPoll ''own'', EvAck \<lparr>Message = close_message, AckId = 0\<rparr>,
                     EvLongPoll ''own'' Minute,
                     EvAck \<lparr>Message = data_message [103], AckId = 0\<rparr>]\<rparr>) \<and>
   Inr (1, None) \<noteq> (Inr (0, Some EOF) :: panic + nat \<times> error option)"
proof -
  have "Read ScriptT (ep (Some [101, 102])) [0, 0, 0, 0]
      (start (quiet\<lparr>polls := [deliver close_message, deliver (data_message [103])],
                     acks := [Some (Err ''ack'')]\<rparr>)) =
     Some (Inr (2, None), [101, 102, 0, 0], ep None,
           \<lparr>broker = quiet\<lparr>polls := [deliver (data_message [103])]\<rparr>,
            trace = [EvPoll ''own'', EvAck \<lparr>Message = close_message, AckId = 0\<rparr>]\<rparr>)"
    by (simp add: Read_def call_defs script_defs copy_def)
  moreover have "Read ScriptT (ep None) [0, 0, 0, 0]
      \<lparr>broker = quiet\<lparr>polls := [deliver (data_message [103])]\<rparr>,
       trace = [EvPoll ''own'', EvAck \<lparr>Message = close_message, AckId = 0\<rparr>]\<rparr> =
     Some (Inr (1, None), [103, 0, 0, 0], ep None,
           \<lparr>broker = quiet,
            trace = [EvPoll ''own'', EvAck \<lparr>Message = close_message, AckId = 0\<rparr>,
                     EvLongPoll ''own'' Minute,
                     EvAck \<lparr>Message = data_message [103], AckId = 0\<rparr>]\<rparr>)"
    apply (simp add: Read_def ep_def)
    apply (subst Read_loop.simps)
    apply (simp add: call_defs script_defs copy_def data_message_def)
    done
  ultimately show ?thesis by simp
qed

subsection \<open>The reply queue of an instance\<close>

lemma LocalQueue_cached:
  "localQueue fc \<noteq> [] \<Longrightarrow> LocalQueue T fc w = (Inr (localQueue fc), fc, w)"
  by (simp add: LocalQueue_def)

lemma LocalQueue_calls_cached:
  "localQueue fc \<noteq> [] \<Longrightarrow>
     LocalQueue_calls T n fc w = (replicate n (Inr (localQueue fc)), fc, w)"
  by (induction n) (simp_all add: LocalQueue_cached)

text \<open>
  C5. On a new instance (\<^verbatim>\<open>localQueue\<close> empty), when \<^verbatim>\<open>RandomQueue\<close> returns a non-empty name
  \<open>r\<close> and its declaration succeeds: any number of calls of \<^verbatim>\<open>LocalQueue\<close> all return \<open>r\<close>,
  the calls together pass \<open>r\<close> to \<^verbatim>\<open>EphemeralDeclare\<close> exactly once, and from then on a call
  returns \<open>r\<close> in every state of the world without a call to the transport.
\<close>

theorem LocalQueue_stable:
  assumes "localQueue fc = []"
    and "RandomQueue T w = (r, w1)"
    and "r \<noteq> []"
    and "EphemeralDeclare T r w1 = (None, w2)"
  shows "LocalQueue_calls T (Suc n) fc w =
           (replicate (Suc n) (Inr r), fc\<lparr>localQueue := r\<rparr>, w2) \<and>
         trace w2 = trace w @ [EvRandomQueue r, EvEphemeralDeclare r] \<and>
         length (filter (is_EphemeralDeclare r) (drop (length (trace w)) (trace w2))) = 1 \<and>
         (\<forall>w'. LocalQueue T (fc\<lparr>localQueue := r\<rparr>) w' = (Inr r, fc\<lparr>localQueue := r\<rparr>, w'))"
proof -
  have first: "LocalQueue T fc w = (Inr r, fc\<lparr>localQueue := r\<rparr>, w2)"
    using assms by (simp add: LocalQueue_def)
  have rest: "LocalQueue_calls T n (fc\<lparr>localQueue := r\<rparr>) w2 =
      (replicate n (Inr r), fc\<lparr>localQueue := r\<rparr>, w2)"
    using LocalQueue_calls_cached [of "fc\<lparr>localQueue := r\<rparr>" T n w2] assms(3) by simp
  have tr: "trace w2 = trace w @ [EvRandomQueue r, EvEphemeralDeclare r]"
    using assms(2,4) by (auto simp: RandomQueue_def EphemeralDeclare_def split: prod.splits)
  have later: "\<forall>w'. LocalQueue T (fc\<lparr>localQueue := r\<rparr>) w' = (Inr r, fc\<lparr>localQueue := r\<rparr>, w')"
    using assms(3) by (simp add: LocalQueue_def)
  from first rest tr later show ?thesis by simp
qed

theorem LocalQueue_stable_witness:
  "LocalQueue_calls ScriptT 3 NewFeatureClient (start (quiet\<lparr>names := [''r1#ephemeral'']\<rparr>)) =
     ([Inr ''r1#ephemeral'', Inr ''r1#ephemeral'', Inr ''r1#ephemeral''],
      \<lparr>localQueue = ''r1#ephemeral''\<rparr>,
      \<lparr>broker = quiet,
       trace = [EvRandomQueue ''r1#ephemeral'', EvEphemeralDeclare ''r1#ephemeral'']\<rparr>)"
proof -
  have 1: "localQueue NewFeatureClient = []" by (simp add: NewFeatureClient_def)
  have 2: "RandomQueue ScriptT (start (quiet\<lparr>names := [''r1#ephemeral'']\<rparr>)) =
      (''r1#ephemeral'', \<lparr>broker = quiet, trace = [EvRandomQueue ''r1#ephemeral'']\<rparr>)"
    by (simp add: call_defs script_defs)
  have 3: "''r1#ephemeral'' \<noteq> []" by simp
  have 4: "EphemeralDeclare ScriptT ''r1#ephemeral''
        \<lparr>broker = quiet, trace = [EvRandomQueue ''r1#ephemeral'']\<rparr> =
      (None, \<lparr>broker = quiet,
              trace = [EvRandomQueue ''r1#ephemeral'', EvEphemeralDeclare ''r1#ephemeral'']\<rparr>)"
    by (simp add: call_defs script_defs)
  from LocalQueue_stable [OF 1 2 3 4, of 2] show ?thesis
    by (simp add: NewFeatureClient_def numeral_3_eq_3)
qed

subsection \<open>Request and reply\<close>

lemma Request_loop_nil_LongPolls:
  "nil_LongPolls T (ReplyTo msg) n w = Some w' \<Longrightarrow>
     Request_loop T msg w = Request_loop T msg w' \<and>
     trace w' = trace w @ replicate n (EvLongPoll (ReplyTo msg) Minute)"
proof (induction n arbitrary: w)
  case 0
  then show ?case by simp
next
  case (Suc n)
  from Suc.prems obtain w1 where
    lp: "LongPoll T (ReplyTo msg) Minute w = ((None, None), w1)"
    and rest: "nil_LongPolls T (ReplyTo msg) n w1 = Some w'"
    by (auto split: prod.splits option.splits)
  from lp have "Request_loop T msg w = Request_loop T msg w1"
    by (subst Request_loop.simps) simp
  moreover from lp have "trace w1 = trace w @ [EvLongPoll (ReplyTo msg) Minute]"
    by (auto simp: LongPoll_def split: prod.splits)
  ultimately show ?case
    using Suc.IH [OF rest] by (simp add: replicate_app_Cons_same)
qed

text \<open>
  C6. \<^verbatim>\<open>Request(name, msg)\<close> pushes to \<open>name\<close> the message with \<^verbatim>\<open>ReplyTo\<close> overwritten by
  the name \<open>lq\<close> that \<^verbatim>\<open>LocalQueue()\<close> returns, whatever \<^verbatim>\<open>msg.ReplyTo\<close> was. When the push
  succeeds and the long polls of \<open>lq\<close> return nothing \<open>n\<close> times and then the delivery \<open>d\<close>,
  \<^verbatim>\<open>Request\<close> returns \<open>d\<close> and no error, after exactly \<open>n + 1\<close> long polls of \<open>lq\<close>.
\<close>

theorem Request_returns_first_delivery:
  assumes "LocalQueue T fc w = (Inr lq, fc1, w1)"
    and "Push T name (msg\<lparr>ReplyTo := lq\<rparr>) w1 = (None, w2)"
    and "nil_LongPolls T lq n w2 = Some w3"
    and "LongPoll T lq Minute w3 = ((Some d, None), w4)"
  shows "Request T fc name msg w = Some (Inr (Some d, None), msg\<lparr>ReplyTo := lq\<rparr>, fc1, w4) \<and>
         trace w4 = trace w1 @ EvPush name (msg\<lparr>ReplyTo := lq\<rparr>) #
                      replicate (Suc n) (EvLongPoll lq Minute)"
proof -
  let ?m = "msg\<lparr>ReplyTo := lq\<rparr>"
  have nil: "nil_LongPolls T (ReplyTo ?m) n w2 = Some w3"
    using assms(3) by simp
  have last: "Request_loop T ?m w3 = Some ((Some d, None), w4)"
    using assms(4) by (subst Request_loop.simps) simp
  from Request_loop_nil_LongPolls [OF nil] last
  have loop: "Request_loop T ?m w2 = Some ((Some d, None), w4)"
    and tr3: "trace w3 = trace w2 @ replicate n (EvLongPoll lq Minute)"
    by simp_all
  have tr2: "trace w2 = trace w1 @ [EvPush name ?m]"
    using assms(2) by (auto simp: Push_def split: prod.splits)
  have tr4: "trace w4 = trace w3 @ [EvLongPoll lq Minute]"
    using assms(4) by (auto simp: LongPoll_def split: prod.splits)
  have "Request T fc name msg w = Some (Inr (Some d, None), ?m, fc1, w4)"
    using assms(1,2) loop by (simp add: Request_def)
  moreover have "trace w4 = trace w1 @ EvPush name ?m # replicate (Suc n) (EvLongPoll lq Minute)"
    using tr2 tr3 tr4 by (simp add: replicate_append_same)
  ultimately show ?thesis by simp
qed

theorem Request_returns_first_delivery_witness:
  "Request ScriptT NewFeatureClient ''svc'' ping
      (start (quiet\<lparr>names := [''r1#ephemeral''], polls := [(None, None), (Some pong, None)]\<rparr>)) =
     Some (Inr (Some pong, None), ping\<lparr>ReplyTo := ''r1#ephemeral''\<rparr>,
           \<lparr>localQueue = ''r1#ephemeral''\<rparr>,
           \<lparr>broker = quiet,
            trace = [EvRandomQueue ''r1#ephemeral'', EvEphemeralDeclare ''r1#ephemeral'',
                     EvPush ''svc'' (ping\<lparr>ReplyTo := ''r1#ephemeral''\<rparr>),
                     EvLongPoll ''r1#ephemeral'' Minute, EvLongPoll ''r1#ephemeral'' Minute]\<rparr>)"
proof -
  let ?w0 = "start (quiet\<lparr>names := [''r1#ephemeral''], polls := [(None, None), (Some pong, None)]\<rparr>)"
  let ?b1 = "quiet\<lparr>polls := [(None, None), (Some pong, None)]\<rparr>"
  let ?t1 = "[EvRandomQueue ''r1#ephemeral'', EvEphemeralDeclare ''r1#ephemeral'']"
  let ?m = "ping\<lparr>ReplyTo := ''r1#ephemeral''\<rparr>"
  have 1: "LocalQueue ScriptT NewFeatureClient ?w0 =
      (Inr ''r1#ephemeral'', \<lparr>localQueue = ''r1#ephemeral''\<rparr>, \<lparr>broker = ?b1, trace = ?t1\<rparr>)"
    by (simp add: LocalQueue_def NewFeatureClient_def call_defs script_defs)
  have 2: "Push ScriptT ''svc'' ?m \<lparr>broker = ?b1, trace = ?t1\<rparr> =
      (None, \<lparr>broker = ?b1, trace = ?t1 @ [EvPush ''svc'' ?m]\<rparr>)"
    by (simp add: call_defs script_defs)
  have 3: "nil_LongPolls ScriptT ''r1#ephemeral'' (Suc 0)
        \<lparr>broker = ?b1, trace = ?t1 @ [EvPush ''svc'' ?m]\<rparr> =
      Some \<lparr>broker = quiet\<lparr>polls := [(Some pong, None)]\<rparr>,
            trace = ?t1 @ [EvPush ''svc'' ?m, EvLongPoll ''r1#ephemeral'' Minute]\<rparr>"
    by (simp add: call_defs script_defs)
  have 4: "LongPoll ScriptT ''r1#ephemeral'' Minute
        \<lparr>broker = quiet\<lparr>polls := [(Some pong, None)]\<rparr>,
         trace = ?t1 @ [EvPush ''svc'' ?m, EvLongPoll ''r1#ephemeral'' Minute]\<rparr> =
      ((Some pong, None),
       \<lparr>broker = quiet,
        trace = ?t1 @ [EvPush ''svc'' ?m, EvLongPoll ''r1#ephemeral'' Minute,
                       EvLongPoll ''r1#ephemeral'' Minute]\<rparr>)"
    by (simp add: call_defs script_defs)
  from Request_returns_first_delivery [OF 1 2 3 4] show ?thesis by simp
qed

subsection \<open>The handler loop\<close>

text \<open>
  C7. When the long poll of \<^verbatim>\<open>HandleRequests\<close> returns a delivery, the loop calls the handler
  on its message, then \<^verbatim>\<open>Ack\<close> on the delivery, then \<^verbatim>\<open>Push\<close> of the handler's reply to the
  message's \<^verbatim>\<open>ReplyTo\<close>, in this order; whatever \<^verbatim>\<open>Ack\<close> and \<^verbatim>\<open>Push\<close> return (\<open>ra\<close>, \<open>rp\<close>),
  the loop goes on with its next iteration in the world the push leaves.
\<close>

theorem HandleRequests_acks_then_replies:
  assumes "LongPoll T name Minute w = ((Some d, None), w1)"
    and "Ack T d (w1\<lparr>trace := trace w1 @ [EvHandleMessage (Message d)]\<rparr>) = (ra, w3)"
    and "Push T (ReplyTo (Message d)) (h (Message d)) w3 = (rp, w4)"
  shows "HandleRequests T name h w = HandleRequests T name h w4 \<and>
         trace w4 = trace w @
           [EvLongPoll name Minute, EvHandleMessage (Message d), EvAck d,
            EvPush (ReplyTo (Message d)) (h (Message d))]"
proof -
  have "HandleRequests T name h w = HandleRequests T name h w4"
    using assms by (subst HandleRequests.simps) (simp add: Let_def)
  moreover have "trace w1 = trace w @ [EvLongPoll name Minute]"
    using assms(1) by (auto simp: LongPoll_def split: prod.splits)
  moreover have "trace w3 = trace w1 @ [EvHandleMessage (Message d), EvAck d]"
    using assms(2) by (auto simp: Ack_def split: prod.splits)
  moreover have "trace w4 = trace w3 @ [EvPush (ReplyTo (Message d)) (h (Message d))]"
    using assms(3) by (auto simp: Push_def split: prod.splits)
  ultimately show ?thesis by simp
qed

theorem HandleRequests_acks_then_replies_witness:
  "HandleRequests ScriptT ''svc'' (\<lambda>m. m\<lparr>ReplyTo := []\<rparr>)
      (start (quiet\<lparr>polls := [(Some \<lparr>Message = ping, AckId = 3\<rparr>, None), (None, Some (Err ''gone''))],
                     acks := [Some (Err ''ack'')],
                     pushes := [Some (Err ''push'')]\<rparr>)) =
     Some (Err ''gone'',
           \<lparr>broker = quiet,
            trace = [EvLongPoll ''svc'' Minute, EvHandleMessage ping,
                     EvAck \<lparr>Message = ping, AckId = 3\<rparr>,
                     EvPush ''elsewhere'' (ping\<lparr>ReplyTo := []\<rparr>),
                     EvLongPoll ''svc'' Minute]\<rparr>)"
proof -
  let ?d = "\<lparr>Message = ping, AckId = 3\<rparr>"
  let ?h = "\<lambda>m::message. m\<lparr>ReplyTo := []\<rparr>"
  let ?w0 = "start (quiet\<lparr>polls := [(Some ?d, None), (None, Some (Err ''gone''))],
                     acks := [Some (Err ''ack'')],
                     pushes := [Some (Err ''push'')]\<rparr>)"
  let ?b1 = "quiet\<lparr>polls := [(None, Some (Err ''gone''))],
                     acks := [Some (Err ''ack'')],
                     pushes := [Some (Err ''push'')]\<rparr>"
  let ?b3 = "quiet\<lparr>polls := [(None, Some (Err ''gone''))], pushes := [Some (Err ''push'')]\<rparr>"
  let ?b4 = "quiet\<lparr>polls := [(None, Some (Err ''gone''))]\<rparr>"
  let ?t4 = "[EvLongPoll ''svc'' Minute, EvHandleMessage ping, EvAck ?d,
              EvPush ''elsewhere'' (ping\<lparr>ReplyTo := []\<rparr>)]"
  have 1: "LongPoll ScriptT ''svc'' Minute ?w0 =
      ((Some ?d, None), \<lparr>broker = ?b1, trace = [EvLongPoll ''svc'' Minute]\<rparr>)"
    by (simp add: call_defs script_defs)
  have 2: "Ack ScriptT ?d
        (\<lparr>broker = ?b1, trace = [EvLongPoll ''svc'' Minute]\<rparr>
           \<lparr>trace := trace \<lparr>broker = ?b1, trace = [EvLongPoll ''svc'' Minute]\<rparr> @
                        [EvHandleMessage (Message ?d)]\<rparr>) =
      (Some (Err ''ack''),
       \<lparr>broker = ?b3, trace = [EvLongPoll ''svc'' Minute, EvHandleMessage ping, EvAck ?d]\<rparr>)"
    by (simp add: call_defs script_defs)
  have 3: "Push ScriptT (ReplyTo (Message ?d)) (?h (Message ?d))
        \<lparr>broker = ?b3, trace = [EvLongPoll ''svc'' Minute, EvHandleMessage ping, EvAck ?d]\<rparr> =
      (Some (Err ''push''), \<lparr>broker = ?b4, trace = ?t4\<rparr>)"
    by (simp add: call_defs script_defs ping_def)
  have next_iteration: "HandleRequests ScriptT ''svc'' ?h \<lparr>broker = ?b4, trace = ?t4\<rparr> =
      Some (Err ''gone'', \<lparr>broker = quiet, trace = ?t4 @ [EvLongPoll ''svc'' Minute]\<rparr>)"
    by (subst HandleRequests.simps) (simp add: call_defs script_defs)
  from HandleRequests_acks_then_replies [where h = ?h, OF 1 2 3] next_iteration
  show ?thesis by simp
qed

subsection \<open>Transport errors\<close>

lemma nil_LongPolls_Suc:
  "nil_LongPolls T q (Suc n) w = Some w' \<Longrightarrow>
     \<exists>w1. LongPoll T q Minute w = ((None, None), w1) \<and> nil_LongPolls T q n w1 = Some w'"
  by (auto split: prod.splits option.splits)

lemma Read_loop_nil_LongPolls:
  "nil_LongPolls T (ownM p) n w = Some w' \<Longrightarrow> Read_loop T p b w = Read_loop T p b w'"
proof (induction n arbitrary: w)
  case 0
  then show ?case by simp
next
  case (Suc n)
  from nil_LongPolls_Suc [OF Suc.prems] obtain w1 where
    "LongPoll T (ownM p) Minute w = ((None, None), w1)" "nil_LongPolls T (ownM p) n w1 = Some w'"
    by blast
  then show ?case using Suc.IH Read_loop_nil by metis
qed

lemma HandleRequests_nil_LongPolls:
  "nil_LongPolls T name n w = Some w' \<Longrightarrow> HandleRequests T name h w = HandleRequests T name h w'"
proof (induction n arbitrary: w)
  case 0
  then show ?case by simp
next
  case (Suc n)
  from nil_LongPolls_Suc [OF Suc.prems] obtain w1 where
    lp: "LongPoll T name Minute w = ((None, None), w1)" and r: "nil_LongPolls T name n w1 = Some w'"
    by blast
  from lp have "HandleRequests T name h w = HandleRequests T name h w1"
    by (subst HandleRequests.simps) simp
  with Suc.IH [OF r] show ?case by simp
qed

lemma ListenPipe_loop_nil_LongPolls:
  "nil_LongPolls T q n w = Some w' \<Longrightarrow> ListenPipe_loop T q w = ListenPipe_loop T q w'"
proof (induction n arbitrary: w)
  case 0
  then show ?case by simp
next
  case (Suc n)
  from nil_LongPolls_Suc [OF Suc.prems] obtain w1 where
    lp: "LongPoll T q Minute w = ((None, None), w1)" and r: "nil_LongPolls T q n w1 = Some w'"
    by blast
  from lp have "ListenPipe_loop T q w = ListenPipe_loop T q w1"
    by (subst ListenPipe_loop.simps) simp
  with Suc.IH [OF r] show ?case by simp
qed

lemma ConnectPipe_loop_nil_LongPolls:
  "nil_LongPolls T q n w = Some w' \<Longrightarrow> ConnectPipe_loop T q w = ConnectPipe_loop T q w'"
proof (induction n arbitrary: w)
  case 0
  then show ?case by simp
next
  case (Suc n)
  from nil_LongPolls_Suc [OF Suc.prems] obtain w1 where
    lp: "LongPoll T q Minute w = ((None, None), w1)" and r: "nil_LongPolls T q n w1 = Some w'"
    by blast
  from lp have "ConnectPipe_loop T q w = ConnectPipe_loop T q w1"
    by (subst ConnectPipe_loop.simps) simp
  with Suc.IH [OF r] show ?case by simp
qed

lemma Declare_error:
  "Client_Declare T name w = (Some e, w1) \<Longrightarrow> \<not> HasSuffix name cEphemeral \<Longrightarrow>
     Declare T name w = (Some e, w1)"
  "EphemeralDeclare T name w = (Some e, w1) \<Longrightarrow> HasSuffix name cEphemeral \<Longrightarrow>
     Declare T name w = (Some e, w1)"
  by (simp_all add: Declare_def)

lemma HandleRequests_LongPoll_error:
  "nil_LongPolls T name n w = Some w1 \<Longrightarrow> LongPoll T name Minute w1 = ((del, Some e), w2) \<Longrightarrow>
     HandleRequests T name h w = Some (e, w2)"
  by (simp add: HandleRequests_nil_LongPolls, subst HandleRequests.simps) simp

lemma Request_Push_error:
  "LocalQueue T fc w = (Inr lq, fc1, w1) \<Longrightarrow> Push T name (msg\<lparr>ReplyTo := lq\<rparr>) w1 = (Some e, w2) \<Longrightarrow>
     Request T fc name msg w = Some (Inr (None, Some e), msg\<lparr>ReplyTo := lq\<rparr>, fc1, w2)"
  by (simp add: Request_def)

lemma Request_LongPoll_error:
  assumes "LocalQueue T fc w = (Inr lq, fc1, w1)"
    and "Push T name (msg\<lparr>ReplyTo := lq\<rparr>) w1 = (None, w2)"
    and "nil_LongPolls T lq n w2 = Some w3"
    and "LongPoll T lq Minute w3 = ((resp, Some e), w4)"
  shows "Request T fc name msg w = Some (Inr (None, Some e), msg\<lparr>ReplyTo := lq\<rparr>, fc1, w4)"
proof -
  let ?m = "msg\<lparr>ReplyTo := lq\<rparr>"
  have "nil_LongPolls T (ReplyTo ?m) n w2 = Some w3" using assms(3) by simp
  from Request_loop_nil_LongPolls [OF this]
  have "Request_loop T ?m w2 = Request_loop T ?m w3" by simp
  also have "\<dots> = Some ((None, Some e), w4)"
    using assms(4) by (subst Request_loop.simps) simp
  finally show ?thesis using assms(1,2) by (simp add: Request_def)
qed

lemma Close_Push_error:
  "\<not> abandon p \<Longrightarrow> Abandon T (ownM p) w = (ra, w1) \<Longrightarrow>
   Push T (pairM p) close_message w1 = (Some e, w2) \<Longrightarrow>
     Close T p w = (Some e, p\<lparr>abandon := True\<rparr>, w2)"
  by (simp add: Close_def)

lemma Read_LongPoll_error:
  "\<not> closed p \<Longrightarrow> buffer p = None \<Longrightarrow> nil_LongPolls T (ownM p) n w = Some w1 \<Longrightarrow>
   LongPoll T (ownM p) Minute w1 = ((resp, Some e), w2) \<Longrightarrow>
     Read T p b w = Some (Inr (0, Some e), b, p, w2)"
  by (simp add: Read_def Read_loop_nil_LongPolls Read_loop_error)

lemma Read_Ack_error:
  "\<not> closed p \<Longrightarrow> buffer p = None \<Longrightarrow> nil_LongPolls T (ownM p) n w = Some w1 \<Longrightarrow>
   LongPoll T (ownM p) Minute w1 = ((Some d, None), w2) \<Longrightarrow> Ack T d w2 = (Some e, w3) \<Longrightarrow>
     Read T p b w = Some (Inr (0, Some e), b, p, w3)"
  by (simp add: Read_def Read_loop_nil_LongPolls Read_loop_Ack_error)

lemma Write_Push_error:
  "\<not> closed p \<Longrightarrow> Push T (pairM p) (data_message b) w = (Some e, w1) \<Longrightarrow>
     Write T p b w = ((0, Some e), w1)"
  by (simp add: Write_def)

lemma ListenPipe_Declare_error:
  "Declare T (''pipe:'' @ name) w = (Some e, w1) \<Longrightarrow> ListenPipe T name w = Some (Inl e, w1)"
  by (simp add: ListenPipe_def)

lemma ListenPipe_LongPoll_error:
  "Declare T (''pipe:'' @ name) w = (None, w1) \<Longrightarrow>
   nil_LongPolls T (''pipe:'' @ name) n w1 = Some w2 \<Longrightarrow>
   LongPoll T (''pipe:'' @ name) Minute w2 = ((resp, Some e), w3) \<Longrightarrow>
     ListenPipe T name w = Some (Inl e, w3)"
  by (simp add: ListenPipe_def ListenPipe_loop_nil_LongPolls, subst ListenPipe_loop.simps) simp

lemma ListenPipe_Ack_error:
  "Declare T (''pipe:'' @ name) w = (None, w1) \<Longrightarrow>
   nil_LongPolls T (''pipe:'' @ name) n w1 = Some w2 \<Longrightarrow>
   LongPoll T (''pipe:'' @ name) Minute w2 = ((Some d, None), w3) \<Longrightarrow>
   Ack T d w3 = (Some e, w4) \<Longrightarrow>
     ListenPipe T name w = Some (Inl e, w4)"
  by (simp add: ListenPipe_def ListenPipe_loop_nil_LongPolls, subst ListenPipe_loop.simps) simp

lemma ListenPipe_Push_error:
  "Declare T (''pipe:'' @ name) w = (None, w1) \<Longrightarrow>
   nil_LongPolls T (''pipe:'' @ name) n w1 = Some w2 \<Longrightarrow>
   LongPoll T (''pipe:'' @ name) Minute w2 = ((Some d, None), w3) \<Longrightarrow>
   Ack T d w3 = (None, w4) \<Longrightarrow> Type (Message d) = ''pipe/initconnect'' \<Longrightarrow>
   RandomQueue T w4 = (own, w5) \<Longrightarrow> EphemeralDeclare T own w5 = (rd, w6) \<Longrightarrow>
   Push T (ReplyTo (Message d)) (setup_message own) w6 = (Some e, w7) \<Longrightarrow>
   Abandon T own w7 = (ra, w8) \<Longrightarrow>
     ListenPipe T name w = Some (Inl e, w8)"
  by (simp add: ListenPipe_def ListenPipe_loop_nil_LongPolls, subst ListenPipe_loop.simps) simp

lemma ConnectPipe_Push_error:
  "RandomQueue T w = (own, w1) \<Longrightarrow> EphemeralDeclare T own w1 = (rd, w2) \<Longrightarrow>
   Push T (''pipe:'' @ name) (initconnect_message own) w2 = (Some e, w3) \<Longrightarrow>
   Abandon T own w3 = (ra, w4) \<Longrightarrow>
     ConnectPipe T name w = Some (Inl e, w4)"
  by (simp add: ConnectPipe_def)

lemma ConnectPipe_LongPoll_error:
  "RandomQueue T w = (own, w1) \<Longrightarrow> EphemeralDeclare T own w1 = (rd, w2) \<Longrightarrow>
   Push T (''pipe:'' @ name) (initconnect_message own) w2 = (None, w3) \<Longrightarrow>
   nil_LongPolls T own n w3 = Some w4 \<Longrightarrow>
   LongPoll T own Minute w4 = ((resp, Some e), w5) \<Longrightarrow>
     ConnectPipe T name w = Some (Inl e, w5)"
  by (simp add: ConnectPipe_def ConnectPipe_loop_nil_LongPolls, subst ConnectPipe_loop.simps) simp

lemma ConnectPipe_Ack_error:
  "RandomQueue T w = (own, w1) \<Longrightarrow> EphemeralDeclare T own w1 = (rd, w2) \<Longrightarrow>
   Push T (''pipe:'' @ name) (initconnect_message own) w2 = (None, w3) \<Longrightarrow>
   nil_LongPolls T own n w3 = Some w4 \<Longrightarrow>
   LongPoll T own Minute w4 = ((Some d, None), w5) \<Longrightarrow> Ack T d w5 = (Some e, w6) \<Longrightarrow>
     ConnectPipe T name w = Some (Inl e, w6)"
  by (simp add: ConnectPipe_def ConnectPipe_loop_nil_LongPolls, subst ConnectPipe_loop.simps) simp

text \<open>
  C3, as amended. These errors of the transport are returned as they are, and end the
  operation: of \<^verbatim>\<open>Client.Declare\<close> or \<^verbatim>\<open>EphemeralDeclare\<close> in \<^verbatim>\<open>Declare\<close>; of \<^verbatim>\<open>LongPoll\<close> in
  \<^verbatim>\<open>HandleRequests\<close>; of \<^verbatim>\<open>Push\<close> and \<^verbatim>\<open>LongPoll\<close> in \<^verbatim>\<open>Request\<close>; of \<^verbatim>\<open>Push\<close> in \<^verbatim>\<open>Close\<close> and
  in \<^verbatim>\<open>Write\<close>; of \<^verbatim>\<open>LongPoll\<close> and \<^verbatim>\<open>Ack\<close> in a \<^verbatim>\<open>Read\<close> with no residual buffer; of
  \<^verbatim>\<open>Declare\<close>, \<^verbatim>\<open>LongPoll\<close>, \<^verbatim>\<open>Ack\<close> and \<^verbatim>\<open>Push\<close> in \<^verbatim>\<open>ListenPipe\<close>; of \<^verbatim>\<open>Push\<close>, \<^verbatim>\<open>LongPoll\<close> and
  \<^verbatim>\<open>Ack\<close> in \<^verbatim>\<open>ConnectPipe\<close>. A long poll may fail after any number \<open>n\<close> of long polls that
  returned nothing. The results written \<open>ra\<close> and \<open>rd\<close> (of an \<^verbatim>\<open>Abandon\<close>, and of the
  \<^verbatim>\<open>EphemeralDeclare\<close> of \<^verbatim>\<open>ownM\<close> in the handshake) are arbitrary: nothing is said of them.
\<close>

theorem transport_errors_returned:
  "(\<not> HasSuffix name cEphemeral \<longrightarrow> Client_Declare T name w = (Some e, w1) \<longrightarrow>
      Declare T name w = (Some e, w1)) \<and>
   (HasSuffix name cEphemeral \<longrightarrow> EphemeralDeclare T name w = (Some e, w1) \<longrightarrow>
      Declare T name w = (Some e, w1)) \<and>
   (nil_LongPolls T name n w = Some w1 \<longrightarrow> LongPoll T name Minute w1 = ((resp, Some e), w2) \<longrightarrow>
      HandleRequests T name h w = Some (e, w2)) \<and>
   (LocalQueue T fc w = (Inr lq, fc1, w1) \<longrightarrow>
    Push T name (msg\<lparr>ReplyTo := lq\<rparr>) w1 = (Some e, w2) \<longrightarrow>
      Request T fc name msg w = Some (Inr (None, Some e), msg\<lparr>ReplyTo := lq\<rparr>, fc1, w2)) \<and>
   (LocalQueue T fc w = (Inr lq, fc1, w1) \<longrightarrow>
    Push T name (msg\<lparr>ReplyTo := lq\<rparr>) w1 = (None, w2) \<longrightarrow>
    nil_LongPolls T lq n w2 = Some w3 \<longrightarrow> LongPoll T lq Minute w3 = ((resp, Some e), w4) \<longrightarrow>
      Request T fc name msg w = Some (Inr (None, Some e), msg\<lparr>ReplyTo := lq\<rparr>, fc1, w4)) \<and>
   (\<not> abandon p \<longrightarrow> Abandon T (ownM p) w = (ra, w1) \<longrightarrow>
    Push T (pairM p) close_message w1 = (Some e, w2) \<longrightarrow>
      Close T p w = (Some e, p\<lparr>abandon := True\<rparr>, w2)) \<and>
   (\<not> closed p \<longrightarrow> buffer p = None \<longrightarrow> nil_LongPolls T (ownM p) n w = Some w1 \<longrightarrow>
    LongPoll T (ownM p) Minute w1 = ((resp, Some e), w2) \<longrightarrow>
      Read T p b w = Some (Inr (0, Some e), b, p, w2)) \<and>
   (\<not> closed p \<longrightarrow> buffer p = None \<longrightarrow> nil_LongPolls T (ownM p) n w = Some w1 \<longrightarrow>
    LongPoll T (ownM p) Minute w1 = ((Some d, None), w2) \<longrightarrow> Ack T d w2 = (Some e, w3) \<longrightarrow>
      Read T p b w = Some (Inr (0, Some e), b, p, w3)) \<and>
   (\<not> closed p \<longrightarrow> Push T (pairM p) (data_message b) w = (Some e, w1) \<longrightarrow>
      Write T p b w = ((0, Some e), w1)) \<and>
   (Declare T (''pipe:'' @ name) w = (Some e, w1) \<longrightarrow>
      ListenPipe T name w = Some (Inl e, w1)) \<and>
   (Declare T (''pipe:'' @ name) w = (None, w1) \<longrightarrow>
    nil_LongPolls T (''pipe:'' @ name) n w1 = Some w2 \<longrightarrow>
    LongPoll T (''pipe:'' @ name) Minute w2 = ((resp, Some e), w3) \<longrightarrow>
      ListenPipe T name w = Some (Inl e, w3)) \<and>
   (Declare T (''pipe:'' @ name) w = (None, w1) \<longrightarrow>
    nil_LongPolls T (''pipe:'' @ name) n w1 = Some w2 \<longrightarrow>
    LongPoll T (''pipe:'' @ name) Minute w2 = ((Some d, None), w3) \<longrightarrow>
    Ack T d w3 = (Some e, w4) \<longrightarrow>
      ListenPipe T name w = Some (Inl e, w4)) \<and>
   (Declare T (''pipe:'' @ name) w = (None, w1) \<longrightarrow>
    nil_LongPolls T (''pipe:'' @ name) n w1 = Some w2 \<longrightarrow>
    LongPoll T (''pipe:'' @ name) Minute w2 = ((Some d, None), w3) \<longrightarrow>
    Ack T d w3 = (None, w4) \<longrightarrow> Type (Message d) = ''pipe/initconnect'' \<longrightarrow>
    RandomQueue T w4 = (own, w5) \<longrightarrow> EphemeralDeclare T own w5 = (rd, w6) \<longrightarrow>
    Push T (ReplyTo (Message d)) (setup_message own) w6 = (Some e, w7) \<longrightarrow>
    Abandon T own w7 = (ra, w8) \<longrightarrow>
      ListenPipe T name w = Some (Inl e, w8)) \<and>
   (RandomQueue T w = (own, w1) \<longrightarrow> EphemeralDeclare T own w1 = (rd, w2) \<longrightarrow>
    Push T (''pipe:'' @ name) (initconnect_message own) w2 = (Some e, w3) \<longrightarrow>
    Abandon T own w3 = (ra, w4) \<longrightarrow>
      ConnectPipe T name w = Some (Inl e, w4)) \<and>
   (RandomQueue T w = (own, w1) \<longrightarrow> EphemeralDeclare T own w1 = (rd, w2) \<longrightarrow>
    Push T (''pipe:'' @ name) (initconnect_message own) w2 = (None, w3) \<longrightarrow>
    nil_LongPolls T own n w3 = Some w4 \<longrightarrow>
    LongPoll T own Minute w4 = ((resp, Some e), w5) \<longrightarrow>
      ConnectPipe T name w = Some (Inl e, w5)) \<and>
   (RandomQueue T w = (own, w1) \<longrightarrow> EphemeralDeclare T own w1 = (rd, w2) \<longrightarrow>
    Push T (''pipe:'' @ name) (initconnect_message own) w2 = (None, w3) \<longrightarrow>
    nil_LongPolls T own n w3 = Some w4 \<longrightarrow>
    LongPoll T own Minute w4 = ((Some d, None), w5) \<longrightarrow> Ack T d w5 = (Some e, w6) \<longrightarrow>
      ConnectPipe T name w = Some (Inl e, w6))"
  apply (intro conjI impI)
                 apply (erule Declare_error(1), assumption)
                apply (erule Declare_error(2), assumption)
               apply (erule (1) HandleRequests_LongPoll_error)
              apply (erule (1) Request_Push_error)
             apply (erule (3) Request_LongPoll_error)
            apply (erule (2) Close_Push_error)
           apply (erule (3) Read_LongPoll_error)
          apply (erule (4) Read_Ack_error)
         apply (erule (1) Write_Push_error)
        apply (erule ListenPipe_Declare_error)
       apply (erule (2) ListenPipe_LongPoll_error)
      apply (erule (3) ListenPipe_Ack_error)
     apply (erule (8) ListenPipe_Push_error)
    apply (erule (3) ConnectPipe_Push_error)
   apply (erule (4) ConnectPipe_LongPoll_error)
  apply (erule (5) ConnectPipe_Ack_error)
  done

theorem transport_errors_returned_witness:
  "fst (Declare ScriptT ''jobs''
       (start (quiet\<lparr>declares := [Some down]\<rparr>))) =
     Some down \<and>
   fst (Declare ScriptT ''r#ephemeral''
       (start (quiet\<lparr>declares := [Some down]\<rparr>))) =
     Some down \<and>
   map_option fst (HandleRequests ScriptT ''svc'' id
       (start (quiet\<lparr>polls := [(None, None), (None, Some down)]\<rparr>))) =
     Some down \<and>
   map_option fst (Request ScriptT NewFeatureClient ''svc'' ping
       (start (quiet\<lparr>pushes := [Some down]\<rparr>))) =
     Some (Inr (None, Some down)) \<and>
   map_option fst (Request ScriptT NewFeatureClient ''svc'' ping
       (start (quiet\<lparr>polls := [(None, None), (None, Some down)]\<rparr>))) =
     Some (Inr (None, Some down)) \<and>
   fst (Close ScriptT (ep None)
       (start (quiet\<lparr>pushes := [Some down], abandons := [Some (Err ''lost'')]\<rparr>))) =
     Some down \<and>
   map_option fst (Read ScriptT (ep None) [0, 0]
       (start (quiet\<lparr>polls := [(None, None), (None, Some down)]\<rparr>))) =
     Some (Inr (0, Some down)) \<and>
   map_option fst (Read ScriptT (ep None) [0, 0]
       (start (quiet\<lparr>polls := [(Some abcdef, None)], acks := [Some down]\<rparr>))) =
     Some (Inr (0, Some down)) \<and>
   fst (Write ScriptT (ep None) [1]
       (start (quiet\<lparr>pushes := [Some down]\<rparr>))) =
     (0, Some down) \<and>
   map_option fst (ListenPipe ScriptT ''p''
       (start (quiet\<lparr>declares := [Some down]\<rparr>))) =
     Some (Inl down) \<and>
   map_option fst (ListenPipe ScriptT ''p''
       (start (quiet\<lparr>polls := [(None, None), (None, Some down)]\<rparr>))) =
     Some (Inl down) \<and>
   map_option fst (ListenPipe ScriptT ''p''
       (start (quiet\<lparr>polls := [(Some initconnect_delivery, None)], acks := [Some down]\<rparr>))) =
     Some (Inl down) \<and>
   map_option fst (ListenPipe ScriptT ''p''
       (start (quiet\<lparr>polls := [(Some initconnect_delivery, None)], pushes := [Some down]\<rparr>))) =
     Some (Inl down) \<and>
   map_option fst (ConnectPipe ScriptT ''p''
       (start (quiet\<lparr>pushes := [Some down]\<rparr>))) =
     Some (Inl down) \<and>
   map_option fst (ConnectPipe ScriptT ''p''
       (start (quiet\<lparr>polls := [(None, None), (None, Some down)]\<rparr>))) =
     Some (Inl down) \<and>
   map_option fst (ConnectPipe ScriptT ''p''
       (start (quiet\<lparr>polls := [(Some setup_delivery, None)], acks := [Some down]\<rparr>))) =
     Some (Inl down)"
proof -
  note c = transport_errors_returned
  note c1 = c [THEN conjunct1, rule_format]
  note r1 = c [THEN conjunct2]
  note c2 = r1 [THEN conjunct1, rule_format]
  note r2 = r1 [THEN conjunct2]
  note c3 = r2 [THEN conjunct1, rule_format]
  note r3 = r2 [THEN conjunct2]
  note c4 = r3 [THEN conjunct1, rule_format]
  note r4 = r3 [THEN conjunct2]
  note c5 = r4 [THEN conjunct1, rule_format]
  note r5 = r4 [THEN conjunct2]
  note c6 = r5 [THEN conjunct1, rule_format]
  note r6 = r5 [THEN conjunct2]
  note c7 = r6 [THEN conjunct1, rule_format]
  note r7 = r6 [THEN conjunct2]
  note c8 = r7 [THEN conjunct1, rule_format]
  note r8 = r7 [THEN conjunct2]
  note c9 = r8 [THEN conjunct1, rule_format]
  note r9 = r8 [THEN conjunct2]
  note c10 = r9 [THEN conjunct1, rule_format]
  note r10 = r9 [THEN conjunct2]
  note c11 = r10 [THEN conjunct1, rule_format]
  note r11 = r10 [THEN conjunct2]
  note c12 = r11 [THEN conjunct1, rule_format]
  note r12 = r11 [THEN conjunct2]
  note c13 = r12 [THEN conjunct1, rule_format]
  note r13 = r12 [THEN conjunct2]
  note c14 = r13 [THEN conjunct1, rule_format]
  note r14 = r13 [THEN conjunct2]
  note c15 = r14 [THEN conjunct1, rule_format]
  note r15 = r14 [THEN conjunct2]
  note c16 = r15 [rule_format]
  have g1: "fst (Declare ScriptT ''jobs''
        (start (quiet\<lparr>declares := [Some down]\<rparr>))) =
      Some down"
  proof -
    let ?w0 = "start (quiet\<lparr>declares := [Some down]\<rparr>)"
    have f1: "\<not> HasSuffix ''jobs'' cEphemeral" by (simp add: HasSuffix_def cEphemeral_def)
    let ?w1 = "snd (Client_Declare ScriptT ''jobs'' ?w0)"
    have f2: "Client_Declare ScriptT ''jobs'' ?w0 = (Some down, ?w1)"
      by (simp add: eval_defs)
    from c1 [OF f1 f2] show ?thesis by simp
  qed
  have g2: "fst (Declare ScriptT ''r#ephemeral''
        (start (quiet\<lparr>declares := [Some down]\<rparr>))) =
      Some down"
  proof -
    let ?w0 = "start (quiet\<lparr>declares := [Some down]\<rparr>)"
    have f1: "HasSuffix ''r#ephemeral'' cEphemeral" by (simp add: HasSuffix_def cEphemeral_def)
    let ?w1 = "snd (EphemeralDeclare ScriptT ''r#ephemeral'' ?w0)"
    have f2: "EphemeralDeclare ScriptT ''r#ephemeral'' ?w0 = (Some down, ?w1)"
      by (simp add: eval_defs)
    from c2 [OF f1 f2] show ?thesis by simp
  qed
  have g3: "map_option fst (HandleRequests ScriptT ''svc'' id
        (start (quiet\<lparr>polls := [(None, None), (None, Some down)]\<rparr>))) =
      Some down"
  proof -
    let ?w0 = "start (quiet\<lparr>polls := [(None, None), (None, Some down)]\<rparr>)"
    let ?w1 = "the (nil_LongPolls ScriptT ''svc'' (Suc 0) ?w0)"
    have f1: "nil_LongPolls ScriptT ''svc'' (Suc 0) ?w0 = Some ?w1"
      by (simp add: eval_defs)
    let ?w2 = "snd (LongPoll ScriptT ''svc'' Minute ?w1)"
    have f2: "LongPoll ScriptT ''svc'' Minute ?w1 = ((None, Some down), ?w2)"
      by (simp add: eval_defs)
    from c3 [where h = id, OF f1 f2] show ?thesis by simp
  qed
  have g4: "map_option fst (Request ScriptT NewFeatureClient ''svc'' ping
        (start (quiet\<lparr>pushes := [Some down]\<rparr>))) =
      Some (Inr (None, Some down))"
  proof -
    let ?w0 = "start (quiet\<lparr>pushes := [Some down]\<rparr>)"
    let ?w1 = "snd (snd (LocalQueue ScriptT NewFeatureClient ?w0))"
    have f1: "LocalQueue ScriptT NewFeatureClient ?w0 = (Inr ''q#ephemeral'', \<lparr>localQueue = ''q#ephemeral''\<rparr>, ?w1)"
      by (simp add: eval_defs)
    let ?w2 = "snd (Push ScriptT ''svc'' (ping\<lparr>ReplyTo := ''q#ephemeral''\<rparr>) ?w1)"
    have f2: "Push ScriptT ''svc'' (ping\<lparr>ReplyTo := ''q#ephemeral''\<rparr>) ?w1 = (Some down, ?w2)"
      by (simp add: eval_defs)
    from c4 [OF f1 f2] show ?thesis by simp
  qed
  have g5: "map_option fst (Request ScriptT NewFeatureClient ''svc'' ping
        (start (quiet\<lparr>polls := [(None, None), (None, Some down)]\<rparr>))) =
      Some (Inr (None, Some down))"
  proof -
    let ?w0 = "start (quiet\<lparr>polls := [(None, None), (None, Some down)]\<rparr>)"
    let ?w1 = "snd (snd (LocalQueue ScriptT NewFeatureClient ?w0))"
    have f1: "LocalQueue ScriptT NewFeatureClient ?w0 = (Inr ''q#ephemeral'', \<lparr>localQueue = ''q#ephemeral''\<rparr>, ?w1)"
      by (simp add: eval_defs)
    let ?w2 = "snd (Push ScriptT ''svc'' (ping\<lparr>ReplyTo := ''q#ephemeral''\<rparr>) ?w1)"
    have f2: "Push ScriptT ''svc'' (ping\<lparr>ReplyTo := ''q#ephemeral''\<rparr>) ?w1 = (None, ?w2)"
      by (simp add: eval_defs)
    let ?w3 = "the (nil_LongPolls ScriptT ''q#ephemeral'' (Suc 0) ?w2)"
    have f3: "nil_LongPolls ScriptT ''q#ephemeral'' (Suc 0) ?w2 = Some ?w3"
      by (simp add: eval_defs)
    let ?w4 = "snd (LongPoll ScriptT ''q#ephemeral'' Minute ?w3)"
    have f4: "LongPoll ScriptT ''q#ephemeral'' Minute ?w3 = ((None, Some down), ?w4)"
      by (simp add: eval_defs)
    from c5 [OF f1 f2 f3 f4] show ?thesis by simp
  qed
  have g6: "fst (Close ScriptT (ep None)
        (start (quiet\<lparr>pushes := [Some down], abandons := [Some (Err ''lost'')]\<rparr>))) =
      Some down"
  proof -
    let ?w0 = "start (quiet\<lparr>pushes := [Some down], abandons := [Some (Err ''lost'')]\<rparr>)"
    have f1: "\<not> abandon (ep None)" by (simp add: ep_def)
    let ?w1 = "snd (Abandon ScriptT (ownM (ep None)) ?w0)"
    have f2: "Abandon ScriptT (ownM (ep None)) ?w0 = (Some (Err ''lost''), ?w1)"
      by (simp add: eval_defs)
    let ?w2 = "snd (Push ScriptT (pairM (ep None)) close_message ?w1)"
    have f3: "Push ScriptT (pairM (ep None)) close_message ?w1 = (Some down, ?w2)"
      by (simp add: eval_defs)
    from c6 [OF f1 f2 f3] show ?thesis by simp
  qed
  have g7: "map_option fst (Read ScriptT (ep None) [0, 0]
        (start (quiet\<lparr>polls := [(None, None), (None, Some down)]\<rparr>))) =
      Some (Inr (0, Some down))"
  proof -
    let ?w0 = "start (quiet\<lparr>polls := [(None, None), (None, Some down)]\<rparr>)"
    have f1: "\<not> closed (ep None)" by (simp add: ep_def)
    have f2: "buffer (ep None) = None" by (simp add: ep_def)
    let ?w1 = "the (nil_LongPolls ScriptT (ownM (ep None)) (Suc 0) ?w0)"
    have f3: "nil_LongPolls ScriptT (ownM (ep None)) (Suc 0) ?w0 = Some ?w1"
      by (simp add: eval_defs)
    let ?w2 = "snd (LongPoll ScriptT (ownM (ep None)) Minute ?w1)"
    have f4: "LongPoll ScriptT (ownM (ep None)) Minute ?w1 = ((None, Some down), ?w2)"
      by (simp add: eval_defs)
    from c7 [OF f1 f2 f3 f4] show ?thesis by simp
  qed
  have g8: "map_option fst (Read ScriptT (ep None) [0, 0]
        (start (quiet\<lparr>polls := [(Some abcdef, None)], acks := [Some down]\<rparr>))) =
      Some (Inr (0, Some down))"
  proof -
    let ?w0 = "start (quiet\<lparr>polls := [(Some abcdef, None)], acks := [Some down]\<rparr>)"
    have f1: "\<not> closed (ep None)" by (simp add: ep_def)
    have f2: "buffer (ep None) = None" by (simp add: ep_def)
    let ?w1 = "the (nil_LongPolls ScriptT (ownM (ep None)) 0 ?w0)"
    have f3: "nil_LongPolls ScriptT (ownM (ep None)) 0 ?w0 = Some ?w1"
      by (simp add: eval_defs)
    let ?w2 = "snd (LongPoll ScriptT (ownM (ep None)) Minute ?w1)"
    have f4: "LongPoll ScriptT (ownM (ep None)) Minute ?w1 = ((Some abcdef, None), ?w2)"
      by (simp add: eval_defs)
    let ?w3 = "snd (Ack ScriptT abcdef ?w2)"
    have f5: "Ack ScriptT abcdef ?w2 = (Some down, ?w3)"
      by (simp add: eval_defs)
    from c8 [OF f1 f2 f3 f4 f5] show ?thesis by simp
  qed
  have g9: "fst (Write ScriptT (ep None) [1]
        (start (quiet\<lparr>pushes := [Some down]\<rparr>))) =
      (0, Some down)"
  proof -
    let ?w0 = "start (quiet\<lparr>pushes := [Some down]\<rparr>)"
    have f1: "\<not> closed (ep None)" by (simp add: ep_def)
    let ?w1 = "snd (Push ScriptT (pairM (ep None)) (data_message [1]) ?w0)"
    have f2: "Push ScriptT (pairM (ep None)) (data_message [1]) ?w0 = (Some down, ?w1)"
      by (simp add: eval_defs)
    from c9 [OF f1 f2] show ?thesis by simp
  qed
  have g10: "map_option fst (ListenPipe ScriptT ''p''
        (start (quiet\<lparr>declares := [Some down]\<rparr>))) =
      Some (Inl down)"
  proof -
    let ?w0 = "start (quiet\<lparr>declares := [Some down]\<rparr>)"
    let ?w1 = "snd (Declare ScriptT (''pipe:'' @ ''p'') ?w0)"
    have f1: "Declare ScriptT (''pipe:'' @ ''p'') ?w0 = (Some down, ?w1)"
      by (simp add: eval_defs)
    from c10 [OF f1] show ?thesis by simp
  qed
  have g11: "map_option fst (ListenPipe ScriptT ''p''
        (start (quiet\<lparr>polls := [(None, None), (None, Some down)]\<rparr>))) =
      Some (Inl down)"
  proof -
    let ?w0 = "start (quiet\<lparr>polls := [(None, None), (None, Some down)]\<rparr>)"
    let ?w1 = "snd (Declare ScriptT (''pipe:'' @ ''p'') ?w0)"
    have f1: "Declare ScriptT (''pipe:'' @ ''p'') ?w0 = (None, ?w1)"
      by (simp add: eval_defs)
    let ?w2 = "the (nil_LongPolls ScriptT (''pipe:'' @ ''p'') (Suc 0) ?w1)"
    have f2: "nil_LongPolls ScriptT (''pipe:'' @ ''p'') (Suc 0) ?w1 = Some ?w2"
      by (simp add: eval_defs)
    let ?w3 = "snd (LongPoll ScriptT (''pipe:'' @ ''p'') Minute ?w2)"
    have f3: "LongPoll ScriptT (''pipe:'' @ ''p'') Minute ?w2 = ((None, Some down), ?w3)"
      by (simp add: eval_defs)
    from c11 [OF f1 f2 f3] show ?thesis by simp
  qed
  have g12: "map_option fst (ListenPipe ScriptT ''p''
        (start (quiet\<lparr>polls := [(Some initconnect_delivery, None)], acks := [Some down]\<rparr>))) =
      Some (Inl down)"
  proof -
    let ?w0 = "start (quiet\<lparr>polls := [(Some initconnect_delivery, None)], acks := [Some down]\<rparr>)"
    let ?w1 = "snd (Declare ScriptT (''pipe:'' @ ''p'') ?w0)"
    have f1: "Declare ScriptT (''pipe:'' @ ''p'') ?w0 = (None, ?w1)"
      by (simp add: eval_defs)
    let ?w2 = "the (nil_LongPolls ScriptT (''pipe:'' @ ''p'') 0 ?w1)"
    have f2: "nil_LongPolls ScriptT (''pipe:'' @ ''p'') 0 ?w1 = Some ?w2"
      by (simp add: eval_defs)
    let ?w3 = "snd (LongPoll ScriptT (''pipe:'' @ ''p'') Minute ?w2)"
    have f3: "LongPoll ScriptT (''pipe:'' @ ''p'') Minute ?w2 = ((Some initconnect_delivery, None), ?w3)"
      by (simp add: eval_defs)
    let ?w4 = "snd (Ack ScriptT initconnect_delivery ?w3)"
    have f4: "Ack ScriptT initconnect_delivery ?w3 = (Some down, ?w4)"
      by (simp add: eval_defs)
    from c12 [OF f1 f2 f3 f4] show ?thesis by simp
  qed
  have g13: "map_option fst (ListenPipe ScriptT ''p''
        (start (quiet\<lparr>polls := [(Some initconnect_delivery, None)], pushes := [Some down]\<rparr>))) =
      Some (Inl down)"
  proof -
    let ?w0 = "start (quiet\<lparr>polls := [(Some initconnect_delivery, None)], pushes := [Some down]\<rparr>)"
    let ?w1 = "snd (Declare ScriptT (''pipe:'' @ ''p'') ?w0)"
    have f1: "Declare ScriptT (''pipe:'' @ ''p'') ?w0 = (None, ?w1)"
      by (simp add: eval_defs)
    let ?w2 = "the (nil_LongPolls ScriptT (''pipe:'' @ ''p'') 0 ?w1)"
    have f2: "nil_LongPolls ScriptT (''pipe:'' @ ''p'') 0 ?w1 = Some ?w2"
      by (simp add: eval_defs)
    let ?w3 = "snd (LongPoll ScriptT (''pipe:'' @ ''p'') Minute ?w2)"
    have f3: "LongPoll ScriptT (''pipe:'' @ ''p'') Minute ?w2 = ((Some initconnect_delivery, None), ?w3)"
      by (simp add: eval_defs)
    let ?w4 = "snd (Ack ScriptT initconnect_delivery ?w3)"
    have f4: "Ack ScriptT initconnect_delivery ?w3 = (None, ?w4)"
      by (simp add: eval_defs)
    have f5: "Type (Message initconnect_delivery) = ''pipe/initconnect''" by (simp add: initconnect_delivery_def initconnect_message_def)
    let ?w5 = "snd (RandomQueue ScriptT ?w4)"
    have f6: "RandomQueue ScriptT ?w4 = (''q#ephemeral'', ?w5)"
      by (simp add: eval_defs)
    let ?w6 = "snd (EphemeralDeclare ScriptT ''q#ephemeral'' ?w5)"
    have f7: "EphemeralDeclare ScriptT ''q#ephemeral'' ?w5 = (None, ?w6)"
      by (simp add: eval_defs)
    let ?w7 = "snd (Push ScriptT (ReplyTo (Message initconnect_delivery)) (setup_message ''q#ephemeral'') ?w6)"
    have f8: "Push ScriptT (ReplyTo (Message initconnect_delivery)) (setup_message ''q#ephemeral'') ?w6 = (Some down, ?w7)"
      by (simp add: eval_defs)
    let ?w8 = "snd (Abandon ScriptT ''q#ephemeral'' ?w7)"
    have f9: "Abandon ScriptT ''q#ephemeral'' ?w7 = (None, ?w8)"
      by (simp add: eval_defs)
    from c13 [OF f1 f2 f3 f4 f5 f6 f7 f8 f9] show ?thesis by simp
  qed
  have g14: "map_option fst (ConnectPipe ScriptT ''p''
        (start (quiet\<lparr>pushes := [Some down]\<rparr>))) =
      Some (Inl down)"
  proof -
    let ?w0 = "start (quiet\<lparr>pushes := [Some down]\<rparr>)"
    let ?w1 = "snd (RandomQueue ScriptT ?w0)"
    have f1: "RandomQueue ScriptT ?w0 = (''q#ephemeral'', ?w1)"
      by (simp add: eval_defs)
    let ?w2 = "snd (EphemeralDeclare ScriptT ''q#ephemeral'' ?w1)"
    have f2: "EphemeralDeclare ScriptT ''q#ephemeral'' ?w1 = (None, ?w2)"
      by (simp add: eval_defs)
    let ?w3 = "snd (Push ScriptT (''pipe:'' @ ''p'') (initconnect_message ''q#ephemeral'') ?w2)"
    have f3: "Push ScriptT (''pipe:'' @ ''p'') (initconnect_message ''q#ephemeral'') ?w2 = (Some down, ?w3)"
      by (simp add: eval_defs)
    let ?w4 = "snd (Abandon ScriptT ''q#ephemeral'' ?w3)"
    have f4: "Abandon ScriptT ''q#ephemeral'' ?w3 = (None, ?w4)"
      by (simp add: eval_defs)
    from c14 [OF f1 f2 f3 f4] show ?thesis by simp
  qed
  have g15: "map_option fst (ConnectPipe ScriptT ''p''
        (start (quiet\<lparr>polls := [(None, None), (None, Some down)]\<rparr>))) =
      Some (Inl down)"
  proof -
    let ?w0 = "start (quiet\<lparr>polls := [(None, None), (None, Some down)]\<rparr>)"
    let ?w1 = "snd (RandomQueue ScriptT ?w0)"
    have f1: "RandomQueue ScriptT ?w0 = (''q#ephemeral'', ?w1)"
      by (simp add: eval_defs)
    let ?w2 = "snd (EphemeralDeclare ScriptT ''q#ephemeral'' ?w1)"
    have f2: "EphemeralDeclare ScriptT ''q#ephemeral'' ?w1 = (None, ?w2)"
      by (simp add: eval_defs)
    let ?w3 = "snd (Push ScriptT (''pipe:'' @ ''p'') (initconnect_message ''q#ephemeral'') ?w2)"
    have f3: "Push ScriptT (''pipe:'' @ ''p'') (initconnect_message ''q#ephemeral'') ?w2 = (None, ?w3)"
      by (simp add: eval_defs)
    let ?w4 = "the (nil_LongPolls ScriptT ''q#ephemeral'' (Suc 0) ?w3)"
    have f4: "nil_LongPolls ScriptT ''q#ephemeral'' (Suc 0) ?w3 = Some ?w4"
      by (simp add: eval_defs)
    let ?w5 = "snd (LongPoll ScriptT ''q#ephemeral'' Minute ?w4)"
    have f5: "LongPoll ScriptT ''q#ephemeral'' Minute ?w4 = ((None, Some down), ?w5)"
      by (simp add: eval_defs)
    from c15 [OF f1 f2 f3 f4 f5] show ?thesis by simp
  qed
  have g16: "map_option fst (ConnectPipe ScriptT ''p''
        (start (quiet\<lparr>polls := [(Some setup_delivery, None)], acks := [Some down]\<rparr>))) =
      Some (Inl down)"
  proof -
    let ?w0 = "start (quiet\<lparr>polls := [(Some setup_delivery, None)], acks := [Some down]\<rparr>)"
    let ?w1 = "snd (RandomQueue ScriptT ?w0)"
    have f1: "RandomQueue ScriptT ?w0 = (''q#ephemeral'', ?w1)"
      by (simp add: eval_defs)
    let ?w2 = "snd (EphemeralDeclare ScriptT ''q#ephemeral'' ?w1)"
    have f2: "EphemeralDeclare ScriptT ''q#ephemeral'' ?w1 = (None, ?w2)"
      by (simp add: eval_defs)
    let ?w3 = "snd (Push ScriptT (''pipe:'' @ ''p'') (initconnect_message ''q#ephemeral'') ?w2)"
    have f3: "Push ScriptT (''pipe:'' @ ''p'') (initconnect_message ''q#ephemeral'') ?w2 = (None, ?w3)"
      by (simp add: eval_defs)
    let ?w4 = "the (nil_LongPolls ScriptT ''q#ephemeral'' 0 ?w3)"
    have f4: "nil_LongPolls ScriptT ''q#ephemeral'' 0 ?w3 = Some ?w4"
      by (simp add: eval_defs)
    let ?w5 = "snd (LongPoll ScriptT ''q#ephemeral'' Minute ?w4)"
    have f5: "LongPoll ScriptT ''q#ephemeral'' Minute ?w4 = ((Some setup_delivery, None), ?w5)"
      by (simp add: eval_defs)
    let ?w6 = "snd (Ack ScriptT setup_delivery ?w5)"
    have f6: "Ack ScriptT setup_delivery ?w5 = (Some down, ?w6)"
      by (simp add: eval_defs)
    from c16 [OF f1 f2 f3 f4 f5 f6] show ?thesis by simp
  qed
  from g1 g2 g3 g4 g5 g6 g7 g8 g9 g10 g11 g12 g13 g14 g15 g16 show ?thesis by simp
qed

text \<open>
  C3 as stated fails. With an \<^verbatim>\<open>EphemeralDeclare\<close> that returns an error, \<^verbatim>\<open>ConnectPipe\<close> and
  \<^verbatim>\<open>ListenPipe\<close> still return an endpoint and no error (lines 395 and 373 drop the result).
  A \<^verbatim>\<open>Read\<close> whose opportunistic \<^verbatim>\<open>Poll\<close> fails returns the buffered count and no error
  (line 248); \<^verbatim>\<open>Close\<close> returns nil when \<^verbatim>\<open>Abandon\<close> fails (line 215); \<^verbatim>\<open>HandleRequests\<close>
  goes on when \<^verbatim>\<open>Ack\<close> and \<^verbatim>\<open>Push\<close> fail (lines 108 and 110), and returns the error of
  its next long poll.
\<close>

theorem transport_errors_dropped_counterexample:
  "map_option fst (ConnectPipe ScriptT ''p''
      (start (quiet\<lparr>declares := [Some down], polls := [(Some setup_delivery, None)]\<rparr>))) =
     Some (Inr (new_pipeConn ''theirs'' ''q#ephemeral'')) \<and>
   map_option fst (ListenPipe ScriptT ''p''
      (start (quiet\<lparr>declares := [None, Some down], polls := [(Some initconnect_delivery, None)]\<rparr>))) =
     Some (Inr (new_pipeConn ''theirs'' ''q#ephemeral'')) \<and>
   map_option fst (Read ScriptT (ep (Some [101, 102])) [0, 0, 0, 0]
      (start (quiet\<lparr>polls := [(None, Some down)]\<rparr>))) =
     Some (Inr (2, None)) \<and>
   fst (Close ScriptT (ep None) (start (quiet\<lparr>abandons := [Some down]\<rparr>))) = None \<and>
   map_option fst (HandleRequests ScriptT ''svc'' id
      (start (quiet\<lparr>polls := [(Some ping_delivery, None), (None, Some (Err ''gone''))],
                     acks := [Some down], pushes := [Some down]\<rparr>))) =
     Some (Err ''gone'')"
proof -
  have "map_option fst (ConnectPipe ScriptT ''p''
      (start (quiet\<lparr>declares := [Some down], polls := [(Some setup_delivery, None)]\<rparr>))) =
     Some (Inr (new_pipeConn ''theirs'' ''q#ephemeral''))"
    apply (simp add: ConnectPipe_def call_defs script_defs)
    apply (subst ConnectPipe_loop.simps)
    apply (simp add: call_defs script_defs setup_delivery_def setup_message_def)
    done
  moreover have "map_option fst (ListenPipe ScriptT ''p''
      (start (quiet\<lparr>declares := [None, Some down], polls := [(Some initconnect_delivery, None)]\<rparr>))) =
     Some (Inr (new_pipeConn ''theirs'' ''q#ephemeral''))"
    apply (simp add: ListenPipe_def Let_def Declare_def HasSuffix_def cEphemeral_def call_defs
        script_defs)
    apply (subst ListenPipe_loop.simps)
    apply (simp add: call_defs script_defs initconnect_delivery_def initconnect_message_def)
    done
  moreover have "map_option fst (Read ScriptT (ep (Some [101, 102])) [0, 0, 0, 0]
      (start (quiet\<lparr>polls := [(None, Some down)]\<rparr>))) =
     Some (Inr (2, None))"
    by (simp add: Read_def call_defs script_defs)
  moreover have "fst (Close ScriptT (ep None) (start (quiet\<lparr>abandons := [Some down]\<rparr>))) = None"
    by (simp add: Close_def call_defs script_defs)
  moreover have "map_option fst (HandleRequests ScriptT ''svc'' id
      (start (quiet\<lparr>polls := [(Some ping_delivery, None), (None, Some (Err ''gone''))],
                     acks := [Some down], pushes := [Some down]\<rparr>))) =
     Some (Err ''gone'')"
    apply (subst HandleRequests.simps)
    apply (simp add: Let_def call_defs script_defs ping_delivery_def)
    apply (subst HandleRequests.simps)
    apply (simp add: Let_def call_defs script_defs)
    done
  ultimately show ?thesis by simp
qed

subsection \<open>Byte conservation\<close>

lemma Push_MailboxT:
  "Push MailboxT q m w =
     (None, \<lparr>broker = (broker w)\<lparr>boxes := (boxes (broker w))(q := boxes (broker w) q @ [m])\<rparr>,
             trace = trace w @ [EvPush q m]\<rparr>)"
  by (simp add: Push_def MailboxT_def mb_Push_def)

lemma Poll_MailboxT_Nil:
  "boxes (broker w) q = [] \<Longrightarrow>
     Poll MailboxT q w = ((None, None), \<lparr>broker = broker w, trace = trace w @ [EvPoll q]\<rparr>)"
  by (simp add: Poll_def MailboxT_def mb_Poll_def)

lemma Poll_MailboxT_Cons:
  "boxes (broker w) q = m # ms \<Longrightarrow>
     Poll MailboxT q w =
       ((Some \<lparr>Message = m, AckId = 0\<rparr>, None),
        \<lparr>broker = (broker w)\<lparr>boxes := (boxes (broker w))(q := ms)\<rparr>,
         trace = trace w @ [EvPoll q]\<rparr>)"
  by (simp add: Poll_def MailboxT_def mb_Poll_def)

lemma LongPoll_MailboxT_Nil:
  "boxes (broker w) q = [] \<Longrightarrow>
     LongPoll MailboxT q d w =
       ((None, None), \<lparr>broker = broker w, trace = trace w @ [EvLongPoll q d]\<rparr>)"
  by (simp add: LongPoll_def MailboxT_def mb_Poll_def)

lemma LongPoll_MailboxT_Cons:
  "boxes (broker w) q = m # ms \<Longrightarrow>
     LongPoll MailboxT q d w =
       ((Some \<lparr>Message = m, AckId = 0\<rparr>, None),
        \<lparr>broker = (broker w)\<lparr>boxes := (boxes (broker w))(q := ms)\<rparr>,
         trace = trace w @ [EvLongPoll q d]\<rparr>)"
  by (simp add: LongPoll_def MailboxT_def mb_Poll_def)

lemma Ack_MailboxT:
  "Ack MailboxT d w = (None, \<lparr>broker = broker w, trace = trace w @ [EvAck d]\<rparr>)"
  by (simp add: Ack_def MailboxT_def)

lemma Abandon_MailboxT:
  "Abandon MailboxT q w =
     (None, \<lparr>broker = (broker w)\<lparr>boxes := (boxes (broker w))(q := [])\<rparr>,
             trace = trace w @ [EvAbandon q]\<rparr>)"
  by (simp add: Abandon_def MailboxT_def mb_Abandon_def)

lemma Read_loop_MailboxT_ready:
  "boxes (broker w) (ownM p) \<noteq> [] \<Longrightarrow>
     Read_loop MailboxT p b w =
       (let m = hd (boxes (broker w) (ownM p));
            w2 = \<lparr>broker = (broker w)\<lparr>boxes :=
                       (boxes (broker w))(ownM p := tl (boxes (broker w) (ownM p)))\<rparr>,
                  trace = trace w @ [EvLongPoll (ownM p) Minute, EvAck \<lparr>Message = m, AckId = 0\<rparr>]\<rparr>
        in if Type m = ''pipe/close'' then Some (Inr (0, Some EOF), b, p\<lparr>closed := True\<rparr>, w2)
           else if length b < length (Body m)
           then Some (Inr (length b, None), copy b (take (length b) (Body m)),
                      p\<lparr>buffer := Some (drop (length b) (Body m))\<rparr>, w2)
           else Some (Inr (length (Body m), None), copy b (Body m), p\<lparr>buffer := None\<rparr>, w2))"
  by (cases "boxes (broker w) (ownM p)")
     (simp_all add: Read_loop_data Read_loop_close LongPoll_MailboxT_Cons Ack_MailboxT Let_def)

lemma Poll_MailboxT:
  "Poll MailboxT q w =
     (case boxes (broker w) q of
        [] \<Rightarrow> ((None, None), \<lparr>broker = broker w, trace = trace w @ [EvPoll q]\<rparr>)
      | m # ms \<Rightarrow>
          ((Some \<lparr>Message = m, AckId = 0\<rparr>, None),
           \<lparr>broker = (broker w)\<lparr>boxes := (boxes (broker w))(q := ms)\<rparr>,
            trace = trace w @ [EvPoll q]\<rparr>))"
  by (simp add: Poll_MailboxT_Nil Poll_MailboxT_Cons split: list.splits)

text \<open>
  C4, at the input of the spec's fourth scenario, over the broker above. One endpoint
  writes \<^verbatim>\<open>"abcdef"\<close>; its peer reads \<^verbatim>\<open>"abcd"\<close> into four bytes and keeps \<^verbatim>\<open>"ef"\<close> as
  residual. The peer's next \<^verbatim>\<open>Read\<close> into four bytes copies \<^verbatim>\<open>"ef"\<close>, clears the residual
  buffer, polls the empty mailbox and panics on the nil delivery: the run ends there, and
  \<^verbatim>\<open>"ef"\<close> is in no slice that a \<^verbatim>\<open>Read\<close> returned and no longer in the buffer, while the
  bytes written are \<^verbatim>\<open>"abcdef"\<close>.
\<close>

theorem pipe_residual_lost:
  "map_option got (run scenario4 (connected ''a'' ''b'')) = Some [97, 98, 99, 100] \<and>
   map_option (\<lambda>s. buffer (B s)) (run scenario4 (connected ''a'' ''b'')) = Some (Some [101, 102]) \<and>
   map_option (\<lambda>s. map_option (\<lambda>(r, b1, p1, w1). (r, b1, buffer p1))
                     (Read MailboxT (B s) [0, 0, 0, 0] (net s)))
      (run scenario4 (connected ''a'' ''b'')) =
     Some (Some (Inl NilPointerDereference, [101, 102, 0, 0], None)) \<and>
   run (scenario4 @ [ReadB [0, 0, 0, 0]]) (connected ''a'' ''b'') = None \<and>
   written (scenario4 @ [ReadB [0, 0, 0, 0]]) = [97, 98, 99, 100, 101, 102]"
  by (simp add: scenario4_def written_def connected_def new_pipeConn_def Read_def Write_def
      Read_loop_MailboxT_ready Push_MailboxT Poll_MailboxT Ack_MailboxT
      copy_def data_message_def Let_def)

lemma Read_loop_MailboxT:
  assumes "Read_loop T p b w = Some y"
  shows "T = MailboxT \<longrightarrow>
     (\<exists>m ms w'. boxes (broker w) (ownM p) = m # ms \<and>
        broker w' = (broker w)\<lparr>boxes := (boxes (broker w))(ownM p := ms)\<rparr> \<and>
        y = (if Type m = ''pipe/close'' then (Inr (0, Some EOF), b, p\<lparr>closed := True\<rparr>, w')
             else if length b < length (Body m)
             then (Inr (length b, None), copy b (take (length b) (Body m)),
                   p\<lparr>buffer := Some (drop (length b) (Body m))\<rparr>, w')
             else (Inr (length (Body m), None), copy b (Body m), p\<lparr>buffer := None\<rparr>, w')))"
proof (rule Read_loop.raw_induct
    [where P = "\<lambda>T p b w y. T = MailboxT \<longrightarrow>
     (\<exists>m ms w'. boxes (broker w) (ownM p) = m # ms \<and>
        broker w' = (broker w)\<lparr>boxes := (boxes (broker w))(ownM p := ms)\<rparr> \<and>
        y = (if Type m = ''pipe/close'' then (Inr (0, Some EOF), b, p\<lparr>closed := True\<rparr>, w')
             else if length b < length (Body m)
             then (Inr (length b, None), copy b (take (length b) (Body m)),
                   p\<lparr>buffer := Some (drop (length b) (Body m))\<rparr>, w')
             else (Inr (length (Body m), None), copy b (Body m), p\<lparr>buffer := None\<rparr>, w')))",
     OF _ assms], goal_cases)
  case (1 f T p b w y)
  show ?case
  proof
    assume T: "T = MailboxT"
    show "\<exists>m ms w'. boxes (broker w) (ownM p) = m # ms \<and>
        broker w' = (broker w)\<lparr>boxes := (boxes (broker w))(ownM p := ms)\<rparr> \<and>
        y = (if Type m = ''pipe/close'' then (Inr (0, Some EOF), b, p\<lparr>closed := True\<rparr>, w')
             else if length b < length (Body m)
             then (Inr (length b, None), copy b (take (length b) (Body m)),
                   p\<lparr>buffer := Some (drop (length b) (Body m))\<rparr>, w')
             else (Inr (length (Body m), None), copy b (Body m), p\<lparr>buffer := None\<rparr>, w'))"
    proof (cases "boxes (broker w) (ownM p)")
      case Nil
      with 1(2) T
      have "f MailboxT p b \<lparr>broker = broker w, trace = trace w @ [EvLongPoll (ownM p) Minute]\<rparr> =
          Some y"
        by (simp add: LongPoll_MailboxT_Nil)
      from 1(1) [OF this] Nil show ?thesis by simp
    next
      case (Cons m ms)
      with 1(2) T show ?thesis
        by (auto simp: LongPoll_MailboxT_Cons Ack_MailboxT Let_def split: if_splits)
    qed
  qed
qed

lemma copy_fits: "length src \<le> length dst \<Longrightarrow> copy dst src = src @ drop (length src) dst"
  by (simp add: copy_def Let_def min_def)

lemma conserving_connected: "qa \<noteq> qb \<Longrightarrow> conserving (connected qa qb)"
  by (simp add: conserving_def connected_def new_pipeConn_def unread_def)

lemma conserving_Write:
  assumes "conserving s" and "step (WriteA bs) s = Some s'"
  shows "conserving s'"
proof -
  let ?q = "boxes (broker (net s)) (ownM (B s))"
  from assms(1) have peer: "pairM (A s) = ownM (B s)" and open_A: "\<not> closed (A s)"
    by (simp_all add: conserving_def)
  from assms(2) peer open_A have s': "s' = s\<lparr>net := \<lparr>broker = (broker (net s))\<lparr>boxes :=
        (boxes (broker (net s)))(ownM (B s) := ?q @ [data_message bs])\<rparr>,
        trace = trace (net s) @ [EvPush (ownM (B s)) (data_message bs)]\<rparr>,
      sent := sent s @ (if abandon (A s) then [] else bs)\<rparr>"
    by (auto simp: Write_def Push_MailboxT)
  show ?thesis
  proof (cases "abandon (A s)")
    case True
    with assms(1) show ?thesis
      unfolding s' by (auto simp: conserving_def unread_def takeWhile_append1)
  next
    case False
    with assms(1) have tw: "takeWhile (\<lambda>m. Type m \<noteq> ''pipe/close'') ?q = ?q"
      by (simp add: conserving_def)
    from False assms(1) show ?thesis
      unfolding s' by (auto simp: conserving_def unread_def data_message_def tw)
  qed
qed

lemma conserving_Close:
  assumes "conserving s" and "step CloseA s = Some s'"
  shows "conserving s'"
proof (cases "abandon (A s)")
  case True
  with assms show ?thesis by (auto simp: Close_def)
next
  case False
  let ?q = "boxes (broker (net s)) (ownM (B s))"
  from assms(1) have peer: "pairM (A s) = ownM (B s)" and other: "ownM (A s) \<noteq> ownM (B s)"
    by (simp_all add: conserving_def)
  from assms(2) False peer other
  have A': "A s' = (A s)\<lparr>abandon := True\<rparr>" and B': "B s' = B s"
    and sent': "sent s' = sent s" and got': "got s' = got s"
    and q': "boxes (broker (net s')) (ownM (B s)) = ?q @ [close_message]"
    by (auto simp: Close_def Abandon_MailboxT Push_MailboxT)
  from assms(1) False have tw: "takeWhile (\<lambda>m. Type m \<noteq> ''pipe/close'') ?q = ?q"
    by (simp add: conserving_def)
  from assms(1) False show ?thesis
    by (auto simp: conserving_def unread_def A' B' sent' got' q' close_message_def tw)
qed


lemma Read_MailboxT_short:
  assumes "\<not> closed p" and "buffer p = Some buf" and "length b \<le> length buf"
    and "Read MailboxT p b w = Some (Inr (n, err), b1, p1, w1)"
  shows "take n b1 = take (length b) buf \<and>
         p1 = p\<lparr>buffer := (if length b < length buf then Some (drop (length b) buf) else None)\<rparr> \<and>
         w1 = w"
  using assms by (auto simp: Read_def Let_def copy_fits split: if_splits)

lemma Read_MailboxT_topup:
  assumes "\<not> closed p" and "buffer p = Some buf" and "length buf < length b"
    and "Read MailboxT p b w = Some (Inr (n, err), b1, p1, w1)"
  shows "\<exists>m ms. boxes (broker w) (ownM p) = m # ms \<and>
           broker w1 = (broker w)\<lparr>boxes := (boxes (broker w))(ownM p := ms)\<rparr> \<and>
           (if Type m = ''pipe/close''
            then take n b1 = buf \<and> p1 = p\<lparr>buffer := None, closed := True\<rparr>
            else take n b1 = buf @ take (length b - length buf) (Body m) \<and>
                 p1 = p\<lparr>buffer := (if length b - length buf < length (Body m)
                                     then Some (drop (length b - length buf) (Body m))
                                     else None)\<rparr>)"
proof (cases "boxes (broker w) (ownM p)")
  case Nil
  with assms show ?thesis
    by (simp add: Read_def Let_def Poll_MailboxT_Nil)
next
  case (Cons m ms)
  with assms show ?thesis
    by (auto simp: Read_def Let_def Poll_MailboxT_Cons Ack_MailboxT copy_fits split: if_splits)
qed

lemma Read_MailboxT_unbuffered:
  assumes "\<not> closed p" and "buffer p = None"
    and "Read MailboxT p b w = Some (Inr (n, err), b1, p1, w1)"
  shows "\<exists>m ms. boxes (broker w) (ownM p) = m # ms \<and>
           broker w1 = (broker w)\<lparr>boxes := (boxes (broker w))(ownM p := ms)\<rparr> \<and>
           (if Type m = ''pipe/close''
            then n = 0 \<and> p1 = p\<lparr>closed := True\<rparr>
            else take n b1 = take (length b) (Body m) \<and>
                 p1 = p\<lparr>buffer := (if length b < length (Body m)
                                     then Some (drop (length b) (Body m)) else None)\<rparr>)"
proof -
  from assms have "Read_loop MailboxT p b w = Some (Inr (n, err), b1, p1, w1)"
    by (simp add: Read_def)
  from Read_loop_MailboxT [OF this, THEN mp, OF refl]
  obtain m ms and w' :: "mailboxes world" where
    q: "boxes (broker w) (ownM p) = m # ms"
    and w': "broker w' = (broker w)\<lparr>boxes := (boxes (broker w))(ownM p := ms)\<rparr>"
    and y: "(Inr (n, err) :: panic + nat \<times> error option, b1, p1, w1) =
        (if Type m = ''pipe/close'' then (Inr (0, Some EOF), b, p\<lparr>closed := True\<rparr>, w')
         else if length b < length (Body m)
         then (Inr (length b, None), copy b (take (length b) (Body m)),
               p\<lparr>buffer := Some (drop (length b) (Body m))\<rparr>, w')
         else (Inr (length (Body m), None), copy b (Body m), p\<lparr>buffer := None\<rparr>, w'))"
    by blast
  have "if Type m = ''pipe/close''
        then n = 0 \<and> p1 = p\<lparr>closed := True\<rparr>
        else take n b1 = take (length b) (Body m) \<and>
             p1 = p\<lparr>buffer := (if length b < length (Body m)
                                 then Some (drop (length b) (Body m)) else None)\<rparr>"
    using y by (simp add: copy_fits split: if_splits)
  moreover have "broker w1 = (broker w)\<lparr>boxes := (boxes (broker w))(ownM p := ms)\<rparr>"
    using y w' by (simp split: if_splits)
  ultimately show ?thesis using q by blast
qed

lemma take_drop_append: "take k xs @ drop k xs @ ys = xs @ ys"
  by (simp flip: append_assoc)

lemma conserving_popped:
  assumes inv: "conserving s"
    and q: "boxes (broker (net s)) (ownM (B s)) = m # ms"
    and w1: "broker w1 = (broker (net s))\<lparr>boxes := (boxes (broker (net s)))(ownM (B s) := ms)\<rparr>"
    and own: "ownM p1 = ownM (B s)"
    and res: "if Type m = ''pipe/close''
              then closed p1 \<and> bs = (case buffer (B s) of None \<Rightarrow> [] | Some r \<Rightarrow> r)
              else \<not> closed p1 \<and>
                   bs @ (case buffer p1 of None \<Rightarrow> [] | Some r \<Rightarrow> r) =
                     (case buffer (B s) of None \<Rightarrow> [] | Some r \<Rightarrow> r) @ Body m"
    and open_B: "\<not> closed (B s)"
  shows "conserving (s\<lparr>B := p1, net := w1, got := got s @ bs\<rparr>)"
proof (cases "Type m = ''pipe/close''")
  case True
  with inv q have "abandon (A s)"
    by (auto simp: conserving_def)
  moreover from inv open_B q True
  have "got s @ (case buffer (B s) of None \<Rightarrow> [] | Some r \<Rightarrow> r) = sent s"
    by (simp add: conserving_def unread_def)
  ultimately show ?thesis
    using inv res True own by (simp add: conserving_def unread_def)
next
  case False
  let ?old = "case buffer (B s) of None \<Rightarrow> [] | Some r \<Rightarrow> r"
  let ?new = "case buffer p1 of None \<Rightarrow> [] | Some r \<Rightarrow> r"
  let ?rest = "concat (map Body (takeWhile (\<lambda>m. Type m \<noteq> ''pipe/close'') ms))"
  from res False have p1: "\<not> closed p1" and bytes: "bs @ ?new = ?old @ Body m"
    by simp_all
  from inv open_B q False have "got s @ ?old @ Body m @ ?rest = sent s"
    by (simp add: conserving_def unread_def)
  then have "got s @ (bs @ ?new) @ ?rest = sent s"
    by (simp add: bytes)
  then have total: "(got s @ bs) @ ?new @ ?rest = sent s"
    by simp
  from inv q False have data: "\<not> abandon (A s) \<longrightarrow> (\<forall>m \<in> set ms. Type m \<noteq> ''pipe/close'')"
    and close: "abandon (A s) \<longrightarrow> (\<exists>m \<in> set ms. Type m = ''pipe/close'')"
    using open_B by (auto simp: conserving_def)
  from inv have "pairM (A s) = ownM (B s)" "ownM (A s) \<noteq> ownM (B s)" "\<not> closed (A s)"
    by (simp_all add: conserving_def)
  with p1 total data close own w1 show ?thesis
    by (simp add: conserving_def unread_def)
qed

lemma conserving_Read:
  assumes inv: "conserving s" and st: "step (ReadB b) s = Some s'"
  shows "conserving s'"
proof -
  let ?p = "B s" and ?w = "net s"
  let ?q = "boxes (broker ?w) (ownM ?p)"
  from st obtain n err b1 p1 w1 where
    rd: "Read MailboxT ?p b ?w = Some (Inr (n, err), b1, p1, w1)"
    and s': "s' = s\<lparr>B := p1, net := w1, got := got s @ take n b1\<rparr>"
    by (auto split: option.splits sum.splits prod.splits)
  show ?thesis
  proof (cases "closed ?p")
    case True
    with rd have "n = 0" "p1 = ?p" "w1 = ?w" by (simp_all add: Read_def)
    with inv show ?thesis unfolding s' by (simp add: conserving_def unread_def)
  next
    case False
    note open_B = this
    show ?thesis
    proof (cases "buffer ?p")
      case None
      from Read_MailboxT_unbuffered [OF open_B None rd] obtain m ms where
        q: "?q = m # ms"
        and w1: "broker w1 = (broker ?w)\<lparr>boxes := (boxes (broker ?w))(ownM ?p := ms)\<rparr>"
        and res: "if Type m = ''pipe/close''
            then n = 0 \<and> p1 = ?p\<lparr>closed := True\<rparr>
            else take n b1 = take (length b) (Body m) \<and>
                 p1 = ?p\<lparr>buffer := (if length b < length (Body m)
                                     then Some (drop (length b) (Body m)) else None)\<rparr>"
        by blast
      from res have own: "ownM p1 = ownM ?p"
        by (simp split: if_splits)
      from res open_B None
      have "if Type m = ''pipe/close''
              then closed p1 \<and> take n b1 = (case buffer ?p of None \<Rightarrow> [] | Some r \<Rightarrow> r)
              else \<not> closed p1 \<and>
                   take n b1 @ (case buffer p1 of None \<Rightarrow> [] | Some r \<Rightarrow> r) =
                     (case buffer ?p of None \<Rightarrow> [] | Some r \<Rightarrow> r) @ Body m"
        by (simp split: if_splits)
      from conserving_popped [OF inv q w1 own this open_B] show ?thesis
        unfolding s' .
    next
      case (Some buf)
      show ?thesis
      proof (cases "length buf < length b")
        case False
        then have "length b \<le> length buf" by simp
        from Read_MailboxT_short [OF open_B Some this rd]
        have got: "take n b1 = take (length b) buf"
          and p1: "p1 = ?p\<lparr>buffer := (if length b < length buf
                                      then Some (drop (length b) buf) else None)\<rparr>"
          and w1: "w1 = ?w"
          by simp_all
        from inv open_B Some have "got s @ buf @ concat (map Body
            (takeWhile (\<lambda>m. Type m \<noteq> ''pipe/close'') ?q)) = sent s"
          by (simp add: conserving_def unread_def)
        with inv open_B False show ?thesis
          unfolding s' got p1 w1 by (simp add: conserving_def unread_def take_drop_append)
      next
        case True
        from Read_MailboxT_topup [OF open_B Some True rd] obtain m ms where
          q: "?q = m # ms"
          and w1: "broker w1 = (broker ?w)\<lparr>boxes := (boxes (broker ?w))(ownM ?p := ms)\<rparr>"
          and res: "if Type m = ''pipe/close''
             then take n b1 = buf \<and> p1 = ?p\<lparr>buffer := None, closed := True\<rparr>
             else take n b1 = buf @ take (length b - length buf) (Body m) \<and>
                  p1 = ?p\<lparr>buffer := (if length b - length buf < length (Body m)
                                      then Some (drop (length b - length buf) (Body m))
                                      else None)\<rparr>"
          by blast
        from res have own: "ownM p1 = ownM ?p"
          by (simp split: if_splits)
        from res open_B Some
        have "if Type m = ''pipe/close''
              then closed p1 \<and> take n b1 = (case buffer ?p of None \<Rightarrow> [] | Some r \<Rightarrow> r)
              else \<not> closed p1 \<and>
                   take n b1 @ (case buffer p1 of None \<Rightarrow> [] | Some r \<Rightarrow> r) =
                     (case buffer ?p of None \<Rightarrow> [] | Some r \<Rightarrow> r) @ Body m"
          by (simp split: if_splits)
        from conserving_popped [OF inv q w1 own this open_B] show ?thesis
          unfolding s' .
      qed
    qed
  qed
qed

lemma conserving_step: "conserving s \<Longrightarrow> step x s = Some s' \<Longrightarrow> conserving s'"
  by (cases x) (blast intro: conserving_Write conserving_Close conserving_Read)+

lemma conserving_run: "conserving s \<Longrightarrow> run xs s = Some s' \<Longrightarrow> conserving s'"
proof (induction xs arbitrary: s)
  case Nil
  then show ?case by simp
next
  case (Cons x xs)
  from Cons.prems(2) obtain s1 where "step x s = Some s1" "run xs s1 = Some s'"
    by (auto split: option.splits)
  with Cons.IH Cons.prems(1) conserving_step show ?case by blast
qed

lemma sent_step:
  assumes "\<not> closed (A s)" and "step x s = Some s1"
  shows "\<not> closed (A s1) \<and>
         abandon (A s1) = (abandon (A s) \<or> x = CloseA) \<and>
         sent s1 = sent s @ (if abandon (A s) then [] else payload x)"
proof (cases x)
  case (WriteA bs)
  with assms show ?thesis
    by (auto simp: Write_def Push_MailboxT)
next
  case CloseA
  with assms show ?thesis
    by (auto simp: Close_def Let_def Abandon_MailboxT Push_MailboxT split: if_splits)
next
  case (ReadB b)
  with assms show ?thesis
    by (auto split: option.splits sum.splits prod.splits)
qed

lemma sent_run:
  "\<not> closed (A s) \<Longrightarrow> run ops s = Some s' \<Longrightarrow>
     sent s' = sent s @ (if abandon (A s) then [] else written ops)"
proof (induction ops arbitrary: s)
  case Nil
  then show ?case by (simp add: written_def)
next
  case (Cons x xs)
  from Cons.prems(2) obtain s1 where st: "step x s = Some s1" and rest: "run xs s1 = Some s'"
    by (auto split: option.splits)
  from sent_step [OF Cons.prems(1) st] have 1: "\<not> closed (A s1)"
    and 2: "abandon (A s1) = (abandon (A s) \<or> x = CloseA)"
    and 3: "sent s1 = sent s @ (if abandon (A s) then [] else payload x)"
    by simp_all
  from Cons.IH [OF 1 rest] 2 3 show ?case
    by (cases "x = CloseA") (auto simp: written_def)
qed

text \<open>
  Apart from that defect the bytes are conserved. Over the broker above, in every
  interleaving of writes and a close on one endpoint with reads on its peer in which each
  \<^verbatim>\<open>Read\<close> returns: the slices returned so far, followed by the bytes still on their way,
  are the bytes written before the close; once the reader has seen the end of the stream
  it has been given exactly those bytes.
\<close>

theorem pipe_bytes_conserved:
  assumes "qa \<noteq> qb" and "run ops (connected qa qb) = Some s"
  shows "got s @ unread s = written ops \<and> (closed (B s) \<longrightarrow> got s = written ops)"
proof -
  from conserving_run [OF conserving_connected [OF assms(1)] assms(2)]
  have "got s @ unread s = sent s"
    by (simp add: conserving_def)
  moreover from sent_run [OF _ assms(2)] have "sent s = written ops"
    by (simp add: connected_def new_pipeConn_def)
  ultimately show ?thesis
    by (auto simp: unread_def split: if_splits)
qed

theorem pipe_bytes_conserved_witness:
  "map_option got (run session (connected ''a'' ''b'')) = Some [97, 98, 99, 100, 101, 102, 103, 104] \<and>
   written session = [97, 98, 99, 100, 101, 102, 103, 104] \<and>
   map_option unread (run session (connected ''a'' ''b'')) = Some []"
proof -
  have r: "run session (connected ''a'' ''b'') = Some (the (run session (connected ''a'' ''b'')))"
    and g: "got (the (run session (connected ''a'' ''b''))) = [97, 98, 99, 100, 101, 102, 103, 104]"
    and c: "closed (B (the (run session (connected ''a'' ''b''))))"
    by (simp_all add: session_def connected_def new_pipeConn_def Read_def Write_def Close_def
        Read_loop_MailboxT_ready Push_MailboxT Abandon_MailboxT Poll_MailboxT Ack_MailboxT
        copy_def data_message_def close_message_def Let_def)
  let ?s = "the (run session (connected ''a'' ''b''))"
  have "''a'' \<noteq> ''b''" by simp
  from pipe_bytes_conserved [OF this r] have "got ?s @ unread ?s = written session" by simp
  with g have "written session = [97, 98, 99, 100, 101, 102, 103, 104]" and "unread ?s = []"
    by (simp_all add: written_def session_def)
  moreover have "map_option got (run session (connected ''a'' ''b'')) = Some (got ?s)"
    and "map_option unread (run session (connected ''a'' ''b'')) = Some (unread ?s)"
    by (subst r, simp)+
  ultimately show ?thesis using g by simp
qed

end
